theory Spec2Isabelle
  imports Main "HOL-Library.Sublist"
begin

section \<open>Python values and strings\<close>

text \<open>
  The cells of a fetched row. The model covers the values \<^verbatim>\<open>None\<close>, \<^verbatim>\<open>str\<close>, \<^verbatim>\<open>int\<close>
  (within the 64-bit range pandas stores natively) and the float \<^verbatim>\<open>nan\<close>. A character is a
  code point below 256. In a \<^verbatim>\<open>float64\<close> column a number is recorded by its integer value.
\<close>

datatype pyval = PyNone | PyStr string | PyInt int | PyNaN

definition digit_char :: "nat \<Rightarrow> char" where
  "digit_char d = char_of (48 + d)"

text \<open>\<^verbatim>\<open>str(n)\<close> for a non-negative integer: its decimal digits.\<close>

fun str_nat :: "nat \<Rightarrow> string" where
  "str_nat n = (if n < 10 then [digit_char n] else str_nat (n div 10) @ [digit_char (n mod 10)])"

declare str_nat.simps [simp del]

definition str_int :: "int \<Rightarrow> string" where
  "str_int i = (if i < 0 then CHR ''-'' # str_nat (nat (- i)) else str_nat (nat i))"

text \<open>The format specification \<^verbatim>\<open>03d\<close>: decimal digits, padded with zeros on the left to a
  width of at least three.\<close>

definition format_03d :: "nat \<Rightarrow> string" where
  "format_03d n = replicate (3 - length (str_nat n)) CHR ''0'' @ str_nat n"

text \<open>\<^verbatim>\<open>str(x)\<close> on a cell, as \<^verbatim>\<open>Series.astype(str)\<close> applies it to every element.\<close>

fun py_str :: "pyval \<Rightarrow> string" where
  "py_str PyNone = ''None''"
| "py_str (PyStr s) = s"
| "py_str (PyInt i) = str_int i"
| "py_str PyNaN = ''nan''"

definition US :: char where
  "US = CHR 0x1F"

definition LF :: char where
  "LF = CHR 0x0A"

definition CR :: char where
  "CR = CHR 0x0D"

text \<open>\<^verbatim>\<open>s.replace('\x1f', '')\<close>\<close>

definition replace_us :: "string \<Rightarrow> string" where
  "replace_us s = filter (\<lambda>c. c \<noteq> US) s"

text \<open>\<^verbatim>\<open>str.isspace\<close> on one character, and \<^verbatim>\<open>str.strip()\<close>.\<close>

definition isspace :: "char \<Rightarrow> bool" where
  "isspace c = (of_char c \<in> {9, 10, 11, 12, 13, 28, 29, 30, 31, 32, 133, 160 :: nat})"

definition strip :: "string \<Rightarrow> string" where
  "strip s = rev (dropWhile isspace (rev (dropWhile isspace s)))"

section \<open>The pandas operations the exporter calls\<close>

datatype dtype = Object | Int64 | Float64

record column =
  label :: string
  dtype :: dtype
  cells :: "pyval list"

record dataframe =
  nrows :: nat
  cols :: "column list"

datatype exception =
  DatabaseError | ValueError | KeyError | AttributeError | OSError | MemoryError
  | UnboundLocalError

fun is_str :: "pyval \<Rightarrow> bool" where
  "is_str (PyStr s) = True"
| "is_str v = False"

fun is_int :: "pyval \<Rightarrow> bool" where
  "is_int (PyInt i) = True"
| "is_int v = False"

fun isnull :: "pyval \<Rightarrow> bool" where
  "isnull PyNone = True"
| "isnull PyNaN = True"
| "isnull v = False"

text \<open>
  The dtype pandas infers for a column of Python objects: \<^verbatim>\<open>object\<close> for an empty column, for
  one that holds a string and for one that holds only \<^verbatim>\<open>None\<close>; \<^verbatim>\<open>int64\<close> when every cell
  is an integer; \<^verbatim>\<open>float64\<close> for numbers mixed with missing values, where \<^verbatim>\<open>None\<close> is stored
  as \<^verbatim>\<open>nan\<close>.
\<close>

definition infer_dtype :: "pyval list \<Rightarrow> dtype" where
  "infer_dtype vs =
     (if vs = [] \<or> list_ex is_str vs then Object
      else if list_all is_int vs then Int64
      else if list_all (\<lambda>v. v = PyNone) vs then Object
      else Float64)"

definition store_as :: "dtype \<Rightarrow> pyval \<Rightarrow> pyval" where
  "store_as d v = (if d = Float64 \<and> v = PyNone then PyNaN else v)"

definition Series :: "string \<Rightarrow> pyval list \<Rightarrow> column" where
  "Series name vs =
     \<lparr>label = name, dtype = infer_dtype vs, cells = map (store_as (infer_dtype vs)) vs\<rparr>"

definition cell_at :: "pyval list \<Rightarrow> nat \<Rightarrow> pyval" where
  "cell_at r j = (if j < length r then r ! j else PyNone)"

text \<open>
  \<^verbatim>\<open>pd.DataFrame(data, columns=columns)\<close> on a list of row tuples: short rows are padded
  with \<^verbatim>\<open>None\<close> to the widest row, and a width other than the number of column names is a
  \<^verbatim>\<open>ValueError\<close>.
\<close>

definition DataFrame :: "pyval list list \<Rightarrow> string list \<Rightarrow> exception + dataframe" where
  "DataFrame data names =
     (if data \<noteq> [] \<and> fold max (map length data) 0 \<noteq> length names then Inl ValueError
      else Inr \<lparr>nrows = length data,
                cols = map (\<lambda>j. Series (names ! j) (map (\<lambda>r. cell_at r j) data))
                         [0..<length names]\<rparr>)"

text \<open>\<^verbatim>\<open>df[col].astype(str).str.replace('\x1f', '', regex=False)\<close>, assigned back to the
  column: a column of strings.\<close>

definition astype_str_replace :: "column \<Rightarrow> column" where
  "astype_str_replace c =
     c\<lparr>dtype := Object, cells := map (\<lambda>v. PyStr (replace_us (py_str v))) (cells c)\<rparr>"

text \<open>
  \<^verbatim>\<open>df[col]\<close> is a column only when the label \<^verbatim>\<open>col\<close> is unique; for a repeated label it is a
  frame, and reading \<^verbatim>\<open>.dtype\<close> of it is an \<^verbatim>\<open>AttributeError\<close>. A loop or comprehension over all of
  \<^verbatim>\<open>df.columns\<close> that reads \<^verbatim>\<open>df[col].dtype\<close> therefore raises as soon as labels repeat.
\<close>

definition strip_object_columns :: "dataframe \<Rightarrow> exception + dataframe" where
  "strip_object_columns df =
     (if \<not> distinct (map label (cols df)) then Inl AttributeError
      else Inr (df\<lparr>cols := map (\<lambda>c. if dtype c = Object then astype_str_replace c else c)
                                (cols df)\<rparr>))"

text \<open>\<^verbatim>\<open>{col: '' if df[col].dtype == 'object' else 0 for col in df.columns}\<close>\<close>

definition fill_dict :: "dataframe \<Rightarrow> exception + (string \<times> pyval) list" where
  "fill_dict df =
     (if \<not> distinct (map label (cols df)) then Inl AttributeError
      else Inr (map (\<lambda>c. (label c, if dtype c = Object then PyStr [] else PyInt 0)) (cols df)))"

text \<open>\<^verbatim>\<open>df.fillna(d)\<close>: in every column that has an entry in \<^verbatim>\<open>d\<close>, a missing cell takes the
  entry's value.\<close>

definition fillna :: "dataframe \<Rightarrow> (string \<times> pyval) list \<Rightarrow> dataframe" where
  "fillna df d =
     df\<lparr>cols := map (\<lambda>c. case map_of d (label c) of
                              None \<Rightarrow> c
                            | Some x \<Rightarrow> c\<lparr>cells := map (\<lambda>v. if isnull v then x else v) (cells c)\<rparr>)
                     (cols df)\<rparr>"

text \<open>\<^verbatim>\<open>df.applymap(f)\<close>: \<^verbatim>\<open>f\<close> on every cell, each resulting column inferred again.\<close>

definition applymap :: "(pyval \<Rightarrow> pyval) \<Rightarrow> dataframe \<Rightarrow> dataframe" where
  "applymap f df = df\<lparr>cols := map (\<lambda>c. Series (label c) (map f (cells c))) (cols df)\<rparr>"

text \<open>\<^verbatim>\<open>lambda x: str(x).replace('\x1f', '') if isinstance(x, str) else x\<close>\<close>

fun replace_if_str :: "pyval \<Rightarrow> pyval" where
  "replace_if_str (PyStr s) = PyStr (replace_us s)"
| "replace_if_str v = v"

section \<open>The sanitising steps of \<^verbatim>\<open>execute_query_and_export_to_excel\<close>\<close>

text \<open>Lines 149--155, the single-file branch: the replacement loop, then \<^verbatim>\<open>fillna\<close> twice with
  the same dictionary.\<close>

definition sanitize_single :: "dataframe \<Rightarrow> exception + dataframe" where
  "sanitize_single df =
     (case strip_object_columns df of
        Inl e \<Rightarrow> Inl e
      | Inr df1 \<Rightarrow>
          (case fill_dict df1 of
             Inl e \<Rightarrow> Inl e
           | Inr d \<Rightarrow> Inr (fillna (fillna df1 d) d)))"

text \<open>Lines 186--190, a full chunk: the replacement loop, then \<^verbatim>\<open>fillna\<close> once.\<close>

definition sanitize_full :: "dataframe \<Rightarrow> exception + dataframe" where
  "sanitize_full df =
     (case strip_object_columns df of
        Inl e \<Rightarrow> Inl e
      | Inr df1 \<Rightarrow>
          (case fill_dict df1 of
             Inl e \<Rightarrow> Inl e
           | Inr d \<Rightarrow> Inr (fillna df1 d)))"

text \<open>Lines 207--210, the trailing partial chunk: \<^verbatim>\<open>applymap\<close>, then \<^verbatim>\<open>fillna\<close>.\<close>

definition sanitize_partial :: "dataframe \<Rightarrow> exception + dataframe" where
  "sanitize_partial df =
     (let df1 = applymap replace_if_str df in
      case fill_dict df1 of
        Inl e \<Rightarrow> Inl e
      | Inr d \<Rightarrow> Inr (fillna df1 d))"

section \<open>The world the exporter runs in\<close>

text \<open>
  What the process can raise: an exception of class \<^verbatim>\<open>Exception\<close>, or \<^verbatim>\<open>SystemExit\<close> with its
  status, which \<^verbatim>\<open>except Exception\<close> does not catch.
\<close>

datatype raised = Exception exception | SystemExit int

text \<open>The records the logger emits at level \<^verbatim>\<open>INFO\<close> and above, one constructor per call
  site; the two \<^verbatim>\<open>logging.debug\<close> calls of the \<^verbatim>\<open>finally\<close> block are below the level.\<close>

datatype log_entry =
    InfoClientInit
  | InfoConfigCreated
  | InfoEditConfig
  | InfoSqlFileCreated string
  | ErrorValidation exception
  | InfoTotalRows int
  | InfoExported string
  | InfoSaved string
  | ErrorRow nat "string list" "pyval list" exception
  | ErrorDatabase exception
  | ErrorValue exception
  | ErrorOther "string list" "pyval list" exception

datatype res_event = ConnectionOpened | ConnectionClosed | CursorOpened | CursorClosed

text \<open>What a query gives: the column names of \<^verbatim>\<open>cursor.description\<close>, the rows the cursor yields,
  and the error that ends the stream after them, if any.\<close>

record result_set =
  description :: "string list"
  fetched :: "pyval list list"
  fetch_error :: "exception option"

text \<open>
  The behaviour of everything outside the script: the driver, the SQL parser, the list append
  inside the per-row \<^verbatim>\<open>try\<close>, and the spreadsheet writer. Creating and closing a cursor and
  closing a connection do not fail.
\<close>

record env =
  init_oracle_client_raises :: "exception option"
  connect_raises :: "string \<Rightarrow> string \<Rightarrow> string \<Rightarrow> exception option"
  sqlparse_parse :: "string \<Rightarrow> exception + nat"
  count_result :: "string \<Rightarrow> exception + int"
  query_result :: "string \<Rightarrow> exception + result_set"
  append_raises :: "pyval list \<Rightarrow> exception option"
  to_excel_raises :: "string \<Rightarrow> exception option"

text \<open>
  The state a run changes: the text files on disk, the \<^verbatim>\<open>to_excel\<close> calls that succeeded (file
  name and frame, oldest first), the log, the driver resources acquired and released, and
  the local variables the \<^verbatim>\<open>except\<close> and \<^verbatim>\<open>finally\<close> clauses read (\<^verbatim>\<open>connection\<close> and
  \<^verbatim>\<open>cursor\<close>: whether bound to an object; \<^verbatim>\<open>columns\<close> and \<^verbatim>\<open>row\<close>: the value once assigned).
\<close>

record state =
  files :: "string \<rightharpoonup> string"
  xlsx :: "(string \<times> dataframe) list"
  logs :: "log_entry list"
  events :: "res_event list"
  connection :: bool
  cursor :: bool
  columns :: "string list option"
  row :: "pyval list option"

definition start :: "(string \<rightharpoonup> string) \<Rightarrow> state" where
  "start disk = \<lparr>files = disk, xlsx = [], logs = [], events = [], connection = False,
                  cursor = False, columns = None, row = None\<rparr>"

section \<open>Reading the configuration and the query\<close>

text \<open>A text file read in text mode: \<^verbatim>\<open>\r\n\<close> and \<^verbatim>\<open>\r\<close> arrive as \<^verbatim>\<open>\n\<close>.\<close>

fun universal_newlines :: "string \<Rightarrow> string" where
  "universal_newlines (c # d # cs) =
     (if c = CR \<and> d = LF then LF # universal_newlines cs
      else if c = CR then LF # universal_newlines (d # cs)
      else c # universal_newlines (d # cs))"
| "universal_newlines [c] = (if c = CR then [LF] else [c])"
| "universal_newlines [] = []"

text \<open>\<^verbatim>\<open>for line in f\<close>: the lines of the text, the line held in \<open>cur\<close> being the one read so far.\<close>

fun file_lines :: "string \<Rightarrow> string \<Rightarrow> string list" where
  "file_lines cur [] = (if cur = [] then [] else [cur])"
| "file_lines cur (c # cs) =
     (if c = LF then (cur @ [c]) # file_lines [] cs else file_lines (cur @ [c]) cs)"

text \<open>The body of the loop of \<^verbatim>\<open>read_db_config\<close>: \<^verbatim>\<open>line.split('=', 1)\<close> on a stripped,
  non-empty line that holds \<^verbatim>\<open>=\<close>.\<close>

definition config_line :: "(string \<rightharpoonup> string) \<Rightarrow> string \<Rightarrow> (string \<rightharpoonup> string)" where
  "config_line config raw =
     (let line = strip raw in
      if line \<noteq> [] \<and> CHR ''='' \<in> set line
      then config(takeWhile (\<lambda>c. c \<noteq> CHR ''='') line \<mapsto> tl (dropWhile (\<lambda>c. c \<noteq> CHR ''='') line))
      else config)"

definition placeholder_config :: string where
  "placeholder_config =
     ''user=123'' @ [LF] @ ''password=456'' @ [LF] @ ''dsn=localhost:1521/orcl'' @ [LF]"

definition read_db_config :: "state \<Rightarrow> (raised + (string \<rightharpoonup> string)) \<times> state" where
  "read_db_config s =
     (case files s ''database.txt'' of
        None \<Rightarrow>
          (Inl (SystemExit 0),
           s\<lparr>files := (files s)(''database.txt'' \<mapsto> placeholder_config),
             logs := logs s @ [InfoConfigCreated, InfoEditConfig]\<rparr>)
      | Some content \<Rightarrow>
          (Inr (fold (\<lambda>l config. config_line config l)
                     (file_lines [] (universal_newlines content)) Map.empty), s))"

definition default_sql :: string where
  "default_sql = ''SELECT * FROM dual''"

definition read_sql_from_file :: "string \<Rightarrow> state \<Rightarrow> string \<times> state" where
  "read_sql_from_file file_path s =
     (let s1 = (if files s file_path = None
                then s\<lparr>files := (files s)(file_path \<mapsto> default_sql @ [LF]),
                       logs := logs s @ [InfoSqlFileCreated file_path]\<rparr>
                else s)
      in (case files s1 file_path of
            None \<Rightarrow> ([], s1)
          | Some content \<Rightarrow> (strip (universal_newlines content), s1)))"

text \<open>\<^verbatim>\<open>validate_sql\<close>: an empty parse raises \<^verbatim>\<open>ValueError\<close> inside the \<^verbatim>\<open>try\<close>; whatever is
  raised there is logged and raised again.\<close>

definition validate_sql :: "env \<Rightarrow> string \<Rightarrow> state \<Rightarrow> raised option \<times> state" where
  "validate_sql env sql s =
     (case sqlparse_parse env sql of
        Inl e \<Rightarrow> (Some (Exception e), s\<lparr>logs := logs s @ [ErrorValidation e]\<rparr>)
      | Inr parsed \<Rightarrow>
          if parsed = 0
          then (Some (Exception ValueError), s\<lparr>logs := logs s @ [ErrorValidation ValueError]\<rparr>)
          else (None, s))"

section \<open>\<^verbatim>\<open>execute_query_and_export_to_excel\<close>\<close>

definition count_sql :: "string \<Rightarrow> string" where
  "count_sql sql = ''SELECT COUNT(1) FROM ('' @ sql @ '')''"

text \<open>\<^verbatim>\<open>f"{output_base}_{file_counter:03d}.xlsx"\<close> with \<^verbatim>\<open>output_base = "output"\<close>.\<close>

definition chunk_filename :: "nat \<Rightarrow> string" where
  "chunk_filename file_counter = ''output'' @ ''_'' @ format_03d file_counter @ ''.xlsx''"

text \<open>\<^verbatim>\<open>df.to_excel(filename, index=False, engine='openpyxl')\<close>: the frame reaches the file, or
  the writer raises and nothing is recorded.\<close>

definition to_excel :: "env \<Rightarrow> dataframe \<Rightarrow> string \<Rightarrow> state \<Rightarrow> exception option \<times> state" where
  "to_excel env df filename s =
     (case to_excel_raises env filename of
        Some e \<Rightarrow> (Some e, s)
      | None \<Rightarrow> (None, s\<lparr>xlsx := xlsx s @ [(filename, df)]\<rparr>))"

text \<open>Lines 139--161: the branch \<^verbatim>\<open>total_rows <= 500_000\<close>.\<close>

definition export_single :: "env \<Rightarrow> string \<Rightarrow> state \<Rightarrow> raised option \<times> state" where
  "export_single env sql s =
     (let s1 = s\<lparr>events := events s @ [CursorClosed, CursorOpened]\<rparr> in
      case query_result env sql of
        Inl e \<Rightarrow> (Some (Exception e), s1)
      | Inr rs \<Rightarrow>
          (let s2 = s1\<lparr>columns := Some (description rs)\<rparr> in
           case fetch_error rs of
             Some e \<Rightarrow> (Some (Exception e), s2)
           | None \<Rightarrow>
               (case DataFrame (fetched rs) (description rs) of
                  Inl e \<Rightarrow> (Some (Exception e), s2)
                | Inr df \<Rightarrow>
                    (case sanitize_single df of
                       Inl e \<Rightarrow> (Some (Exception e), s2)
                     | Inr df1 \<Rightarrow>
                         (case to_excel env df1 ''output.xlsx'' s2 of
                            (Some e, s3) \<Rightarrow> (Some (Exception e), s3)
                          | (None, s3) \<Rightarrow>
                              (None, s3\<lparr>logs := logs s3 @ [InfoExported ''output.xlsx'']\<rparr>))))))"

text \<open>Lines 184--197: a full chunk becomes a frame, is sanitised and written.\<close>

definition write_full_chunk ::
  "env \<Rightarrow> string list \<Rightarrow> pyval list list \<Rightarrow> nat \<Rightarrow> state \<Rightarrow> exception option \<times> state" where
  "write_full_chunk env names current_chunk file_counter s =
     (case DataFrame current_chunk names of
        Inl e \<Rightarrow> (Some e, s)
      | Inr df \<Rightarrow>
          (case sanitize_full df of
             Inl e \<Rightarrow> (Some e, s)
           | Inr df1 \<Rightarrow>
               (case to_excel env df1 (chunk_filename file_counter) s of
                  (Some e, s1) \<Rightarrow> (Some e, s1)
                | (None, s1) \<Rightarrow>
                    (None, s1\<lparr>logs := logs s1 @ [InfoSaved (chunk_filename file_counter)]\<rparr>))))"

text \<open>Lines 204--216: the rows left after the loop.\<close>

definition write_partial_chunk ::
  "env \<Rightarrow> string list \<Rightarrow> pyval list list \<Rightarrow> nat \<Rightarrow> state \<Rightarrow> exception option \<times> state" where
  "write_partial_chunk env names current_chunk file_counter s =
     (case DataFrame current_chunk names of
        Inl e \<Rightarrow> (Some e, s)
      | Inr df \<Rightarrow>
          (case sanitize_partial df of
             Inl e \<Rightarrow> (Some e, s)
           | Inr df1 \<Rightarrow>
               (case to_excel env df1 (chunk_filename file_counter) s of
                  (Some e, s1) \<Rightarrow> (Some e, s1)
                | (None, s1) \<Rightarrow>
                    (None, s1\<lparr>logs := logs s1 @ [InfoSaved (chunk_filename file_counter)]\<rparr>))))"

text \<open>
  Lines 177--181, the per-row \<^verbatim>\<open>try\<close>: the row is appended and counted, or the append raises,
  chunk and count stay as they were, and the error is logged with \<^verbatim>\<open>current_count\<close>, the column
  names and the row.
\<close>

definition accumulate ::
  "env \<Rightarrow> string list \<Rightarrow> pyval list \<Rightarrow> pyval list list \<Rightarrow> nat \<Rightarrow> state
     \<Rightarrow> (pyval list list \<times> nat) \<times> state" where
  "accumulate env names r current_chunk current_count s =
     (case append_raises env r of
        None \<Rightarrow> ((current_chunk @ [r], current_count + 1), s)
      | Some e \<Rightarrow>
          ((current_chunk, current_count),
           s\<lparr>logs := logs s @ [ErrorRow current_count names r e]\<rparr>))"

text \<open>
  Lines 176--201, the loop over the cursor, by recursion on the rows still to come. It ends
  with the chunk left over and the next file counter, or with what a write raised.
\<close>

fun export_rows ::
  "env \<Rightarrow> string list \<Rightarrow> nat \<Rightarrow> pyval list list \<Rightarrow> pyval list list \<Rightarrow> nat \<Rightarrow> nat \<Rightarrow> state
     \<Rightarrow> (exception + pyval list list \<times> nat) \<times> state" where
  "export_rows env names split_size [] current_chunk current_count file_counter s =
     (Inr (current_chunk, file_counter), s)"
| "export_rows env names split_size (r # rest) current_chunk current_count file_counter s =
     (case accumulate env names r current_chunk current_count (s\<lparr>row := Some r\<rparr>) of
        ((chunk1, count1), s1) \<Rightarrow>
          if count1 \<ge> split_size
          then (case write_full_chunk env names chunk1 file_counter s1 of
                  (Some e, s2) \<Rightarrow> (Inl e, s2)
                | (None, s2) \<Rightarrow>
                    export_rows env names split_size rest [] 0 (file_counter + 1) s2)
          else export_rows env names split_size rest chunk1 count1 file_counter s1)"

text \<open>Lines 163--216: the branch \<^verbatim>\<open>total_rows > 500_000\<close>, with \<^verbatim>\<open>split_size = 200_000\<close> and
  \<^verbatim>\<open>file_counter = 1\<close>.\<close>

definition export_multi :: "env \<Rightarrow> string \<Rightarrow> state \<Rightarrow> raised option \<times> state" where
  "export_multi env sql s =
     (let s1 = s\<lparr>events := events s @ [CursorClosed, CursorOpened]\<rparr> in
      case query_result env sql of
        Inl e \<Rightarrow> (Some (Exception e), s1)
      | Inr rs \<Rightarrow>
          (let s2 = s1\<lparr>columns := Some (description rs)\<rparr> in
           case export_rows env (description rs) 200000 (fetched rs) [] 0 1 s2 of
             (Inl e, s3) \<Rightarrow> (Some (Exception e), s3)
           | (Inr (current_chunk, file_counter), s3) \<Rightarrow>
               (case fetch_error rs of
                  Some e \<Rightarrow> (Some (Exception e), s3)
                | None \<Rightarrow>
                    if current_chunk \<noteq> []
                    then (case write_partial_chunk env (description rs) current_chunk
                                 file_counter s3 of
                            (Some e, s4) \<Rightarrow> (Some (Exception e), s4)
                          | (None, s4) \<Rightarrow> (None, s4))
                    else (None, s3))))"

text \<open>Lines 84--216, the \<^verbatim>\<open>try\<close> block: what it raises, if anything, and the state it leaves.\<close>

definition try_block :: "env \<Rightarrow> string \<Rightarrow> state \<Rightarrow> raised option \<times> state" where
  "try_block env sql s =
     (case init_oracle_client_raises env of
        Some e \<Rightarrow> (Some (Exception e), s)
      | None \<Rightarrow>
          (case read_db_config (s\<lparr>logs := logs s @ [InfoClientInit]\<rparr>) of
             (Inl x, s1) \<Rightarrow> (Some x, s1)
           | (Inr db_config, s1) \<Rightarrow>
               (case (db_config ''user'', db_config ''password'', db_config ''dsn'') of
                  (Some user, Some password, Some dsn) \<Rightarrow>
                    (case connect_raises env user password dsn of
                       Some e \<Rightarrow> (Some (Exception e), s1)
                     | None \<Rightarrow>
                         (case validate_sql env sql
                                 (s1\<lparr>connection := True, cursor := True,
                                     events := events s1 @ [ConnectionOpened, CursorOpened]\<rparr>) of
                            (Some x, s2) \<Rightarrow> (Some x, s2)
                          | (None, s2) \<Rightarrow>
                              (case count_result env (count_sql sql) of
                                 Inl e \<Rightarrow> (Some (Exception e), s2)
                               | Inr total_rows \<Rightarrow>
                                   if total_rows \<le> 500000
                                   then export_single env sql
                                          (s2\<lparr>logs := logs s2 @ [InfoTotalRows total_rows]\<rparr>)
                                   else export_multi env sql
                                          (s2\<lparr>logs := logs s2 @ [InfoTotalRows total_rows]\<rparr>))))
                | _ \<Rightarrow> (Some (Exception KeyError), s1))))"

text \<open>
  Lines 218--226, the \<^verbatim>\<open>except\<close> clauses in their order. The last one formats \<^verbatim>\<open>columns\<close> and
  \<^verbatim>\<open>row\<close> into its message: when one of them was never assigned, building the message raises
  \<^verbatim>\<open>UnboundLocalError\<close> and nothing is logged.
\<close>

definition except_clauses :: "raised \<Rightarrow> state \<Rightarrow> raised option \<times> state" where
  "except_clauses x s =
     (case x of
        SystemExit c \<Rightarrow> (Some (SystemExit c), s)
      | Exception e \<Rightarrow>
          if e = DatabaseError then (None, s\<lparr>logs := logs s @ [ErrorDatabase e]\<rparr>)
          else if e = ValueError then (None, s\<lparr>logs := logs s @ [ErrorValue e]\<rparr>)
          else (case (columns s, row s) of
                  (Some names, Some r) \<Rightarrow> (None, s\<lparr>logs := logs s @ [ErrorOther names r e]\<rparr>)
                | _ \<Rightarrow> (Some (Exception UnboundLocalError), s)))"

text \<open>Lines 227--234, the \<^verbatim>\<open>finally\<close> block.\<close>

definition finally_block :: "state \<Rightarrow> state" where
  "finally_block s =
     (let s1 = (if cursor s then s\<lparr>events := events s @ [CursorClosed]\<rparr> else s) in
      if connection s1 then s1\<lparr>events := events s1 @ [ConnectionClosed]\<rparr> else s1)"

text \<open>The function: its locals start unassigned (\<^verbatim>\<open>connection = None\<close>, \<^verbatim>\<open>cursor = None\<close>); it
  returns (\<open>None\<close>) or lets an exception out.\<close>

definition execute_query_and_export_to_excel :: "env \<Rightarrow> string \<Rightarrow> state \<Rightarrow> raised option \<times> state" where
  "execute_query_and_export_to_excel env sql s =
     (case try_block env sql
             (s\<lparr>connection := False, cursor := False, columns := None, row := None\<rparr>) of
        (None, s1) \<Rightarrow> (None, finally_block s1)
      | (Some x, s1) \<Rightarrow>
          (case except_clauses x s1 of
             (out, s2) \<Rightarrow> (out, finally_block s2)))"

text \<open>The exit status of the process: 0 after a normal return, the status of \<^verbatim>\<open>SystemExit\<close>,
  and 1 after the traceback of an exception nothing caught.\<close>

fun exit_status :: "raised option \<Rightarrow> int" where
  "exit_status None = 0"
| "exit_status (Some (SystemExit c)) = c"
| "exit_status (Some (Exception e)) = 1"

text \<open>Lines 236--240, the entry point.\<close>

definition main :: "env \<Rightarrow> state \<Rightarrow> int \<times> state" where
  "main env s =
     (case read_sql_from_file ''params.txt'' s of
        (sql, s1) \<Rightarrow>
          (case execute_query_and_export_to_excel env sql s1 of
             (out, s2) \<Rightarrow> (exit_status out, s2)))"

section \<open>Notions the statements use\<close>

text \<open>The cell in row \<open>i\<close> of column \<open>j\<close> of a frame.\<close>

definition frame_cell :: "dataframe \<Rightarrow> nat \<Rightarrow> nat \<Rightarrow> pyval" where
  "frame_cell df i j = cells (cols df ! j) ! i"

text \<open>The three per-column steps of the sanitising code, named for the proofs: the replacement
  of lines 149--151 and 186--188, the value and the effect of \<^verbatim>\<open>fillna\<close> on one column, and
  the effect of \<^verbatim>\<open>applymap\<close> (line 207) on one column.\<close>

definition strip_col :: "column \<Rightarrow> column" where
  "strip_col c = (if dtype c = Object then astype_str_replace c else c)"

definition fill_value :: "column \<Rightarrow> pyval" where
  "fill_value c = (if dtype c = Object then PyStr [] else PyInt 0)"

definition fill_col :: "column \<Rightarrow> column" where
  "fill_col c = c\<lparr>cells := map (\<lambda>v. if isnull v then fill_value c else v) (cells c)\<rparr>"

definition remap_col :: "column \<Rightarrow> column" where
  "remap_col c = Series (label c) (map replace_if_str (cells c))"

text \<open>What the \<^verbatim>\<open>finally\<close> block depends on: the resource events so far and whether
  \<^verbatim>\<open>connection\<close> and \<^verbatim>\<open>cursor\<close> are bound.\<close>

definition res_view :: "state \<Rightarrow> res_event list \<times> bool \<times> bool" where
  "res_view s = (events s, connection s, cursor s)"

text \<open>The connections and the cursors open after a sequence of resource events.\<close>

definition connections_open :: "res_event list \<Rightarrow> int" where
  "connections_open evs =
     int (count_list evs ConnectionOpened) - int (count_list evs ConnectionClosed)"

definition cursors_open :: "res_event list \<Rightarrow> int" where
  "cursors_open evs = int (count_list evs CursorOpened) - int (count_list evs CursorClosed)"

definition at_most_one_open :: "res_event list \<Rightarrow> bool" where
  "at_most_one_open evs \<longleftrightarrow>
     connections_open evs \<in> {0, 1} \<and> cursors_open evs \<in> {0, 1}"

section \<open>Runs without a fatal error\<close>

text \<open>The client library initialises, \<^verbatim>\<open>database.txt\<close> gives \<^verbatim>\<open>user\<close>, \<^verbatim>\<open>password\<close> and \<^verbatim>\<open>dsn\<close>, and
  the connection succeeds.\<close>

definition db_ready :: "env \<Rightarrow> state \<Rightarrow> bool" where
  "db_ready env s \<longleftrightarrow>
     init_oracle_client_raises env = None \<and>
     (case read_db_config s of
        (Inr config, s') \<Rightarrow>
          (case (config ''user'', config ''password'', config ''dsn'') of
             (Some user, Some password, Some dsn) \<Rightarrow> connect_raises env user password dsn = None
           | _ \<Rightarrow> False)
      | (Inl x, s') \<Rightarrow> False)"

text \<open>The query parses to at least one statement, the count query answers \<open>n\<close> and the main
  query answers \<open>rs\<close>.\<close>

definition query_ready :: "env \<Rightarrow> string \<Rightarrow> int \<Rightarrow> result_set \<Rightarrow> bool" where
  "query_ready env sql n rs \<longleftrightarrow>
     (case sqlparse_parse env sql of Inr parsed \<Rightarrow> 0 < parsed | Inl e \<Rightarrow> False) \<and>
     count_result env (count_sql sql) = Inr n \<and> query_result env sql = Inr rs"

text \<open>The stream ends without an error, the column names are pairwise distinct, every row
  has one cell per column, and the spreadsheet writer never fails.\<close>

definition clean_stream :: "env \<Rightarrow> result_set \<Rightarrow> bool" where
  "clean_stream env rs \<longleftrightarrow>
     fetch_error rs = None \<and> distinct (description rs) \<and>
     (\<forall>r\<in>set (fetched rs). length r = length (description rs)) \<and>
     (\<forall>f. to_excel_raises env f = None)"

text \<open>The state when the branch on \<^verbatim>\<open>total_rows\<close> is reached.\<close>

definition connected :: "int \<Rightarrow> state \<Rightarrow> state" where
  "connected n s = s\<lparr>connection := True, cursor := True,
                      events := events s @ [ConnectionOpened, CursorOpened],
                      logs := logs s @ [InfoClientInit, InfoTotalRows n]\<rparr>"

text \<open>The frame each branch hands to \<^verbatim>\<open>to_excel\<close> for given rows: lines 146--155, 184--190 and
  206--210.\<close>

definition single_frame :: "string list \<Rightarrow> pyval list list \<Rightarrow> exception + dataframe" where
  "single_frame names data =
     (case DataFrame data names of Inl e \<Rightarrow> Inl e | Inr df \<Rightarrow> sanitize_single df)"

definition full_frame :: "string list \<Rightarrow> pyval list list \<Rightarrow> exception + dataframe" where
  "full_frame names data =
     (case DataFrame data names of Inl e \<Rightarrow> Inl e | Inr df \<Rightarrow> sanitize_full df)"

definition partial_frame :: "string list \<Rightarrow> pyval list list \<Rightarrow> exception + dataframe" where
  "partial_frame names data =
     (case DataFrame data names of Inl e \<Rightarrow> Inl e | Inr df \<Rightarrow> sanitize_partial df)"

section \<open>Chunks, as the specification describes them\<close>

text \<open>The full chunks of \<open>c\<close> rows of a list, in order, and the rows left after them.\<close>

definition full_chunks :: "nat \<Rightarrow> 'a list \<Rightarrow> 'a list list" where
  "full_chunks c xs = map (\<lambda>i. take c (drop (i * c) xs)) [0..<length xs div c]"

definition last_chunk :: "nat \<Rightarrow> 'a list \<Rightarrow> 'a list" where
  "last_chunk c xs = drop (length xs div c * c) xs"

text \<open>The rows the per-row \<^verbatim>\<open>try\<close> appends, and the rows on which it raises.\<close>

definition accumulated :: "env \<Rightarrow> pyval list list \<Rightarrow> pyval list list" where
  "accumulated env rows = filter (\<lambda>r. append_raises env r = None) rows"

definition dropped :: "env \<Rightarrow> pyval list list \<Rightarrow> pyval list list" where
  "dropped env rows = filter (\<lambda>r. append_raises env r \<noteq> None) rows"

text \<open>The files multi-file mode is expected to write for the accumulated rows \<open>kept\<close>: the full
  chunks numbered from \<open>k\<close>, then the partial chunk if it is not empty.\<close>

fun numbered_full :: "string list \<Rightarrow> nat \<Rightarrow> pyval list list list \<Rightarrow> (string \<times> dataframe) list" where
  "numbered_full names k [] = []"
| "numbered_full names k (ch # chs) =
     (chunk_filename k, projr (full_frame names ch)) # numbered_full names (Suc k) chs"

definition multi_files :: "string list \<Rightarrow> nat \<Rightarrow> pyval list list \<Rightarrow> (string \<times> dataframe) list" where
  "multi_files names c kept =
     numbered_full names 1 (full_chunks c kept) @
     (if last_chunk c kept = [] then []
      else [(chunk_filename (1 + length kept div c), projr (partial_frame names (last_chunk c kept)))])"

text \<open>The names and the row counts of written files.\<close>

definition file_names :: "(string \<times> dataframe) list \<Rightarrow> string list" where
  "file_names ws = map fst ws"

definition file_sizes :: "(string \<times> dataframe) list \<Rightarrow> nat list" where
  "file_sizes ws = map (\<lambda>w. nrows (snd w)) ws"

text \<open>The per-row errors in a log, each with the row number logged, the column names and the
  row; and what the specification of the loop expects them to be: for each row the append
  raises on, the number of rows accumulated before it modulo the chunk size (starting from
  \<open>n0\<close> rows already in the chunk).\<close>

fun row_error :: "log_entry \<Rightarrow> (nat \<times> string list \<times> pyval list) option" where
  "row_error (ErrorRow i names r e) = Some (i, names, r)"
| "row_error entry = None"

definition row_errors :: "log_entry list \<Rightarrow> (nat \<times> string list \<times> pyval list) list" where
  "row_errors l = List.map_filter row_error l"

definition expected_row_errors ::
  "env \<Rightarrow> string list \<Rightarrow> nat \<Rightarrow> nat \<Rightarrow> pyval list list \<Rightarrow> (nat \<times> string list \<times> pyval list) list" where
  "expected_row_errors env names c n0 rows =
     map (\<lambda>i. ((n0 + length (accumulated env (take i rows))) mod c, names, rows ! i))
         (filter (\<lambda>i. append_raises env (rows ! i) \<noteq> None) [0..<length rows])"

section \<open>Concrete runs\<close>

text \<open>A disk that holds a complete \<^verbatim>\<open>database.txt\<close>, and a world in which every outside call
  succeeds: the count query answers \<open>n\<close> and the main query answers \<open>rs\<close>.\<close>

definition disk_ok :: "string \<rightharpoonup> string" where
  "disk_ok = [''database.txt'' \<mapsto>
     ''user=scott'' @ [LF] @ ''password=tiger'' @ [LF] @ ''dsn=localhost:1521/orcl'' @ [LF]]"

definition env_ok :: "int \<Rightarrow> result_set \<Rightarrow> env" where
  "env_ok n rs = \<lparr>init_oracle_client_raises = None, connect_raises = (\<lambda>u p d. None),
     sqlparse_parse = (\<lambda>q. Inr 1), count_result = (\<lambda>q. Inr n), query_result = (\<lambda>q. Inr rs),
     append_raises = (\<lambda>r. None), to_excel_raises = (\<lambda>f. None)\<rparr>"

text \<open>Two rows: a name with a U+001F inside and a quantity, then a row of two nulls.\<close>

definition small_result :: result_set where
  "small_result = \<lparr>description = [''NAME'', ''QTY''],
     fetched = [[PyStr (''a'' @ [US] @ ''b''), PyInt 1], [PyNone, PyNone]], fetch_error = None\<rparr>"

text \<open>The frame \<^verbatim>\<open>pd.DataFrame\<close> builds from these two rows, and a frame whose two columns
  share the name \<^verbatim>\<open>ID\<close>.\<close>

definition small_frame :: dataframe where
  "small_frame = \<lparr>nrows = 2,
     cols = [\<lparr>label = ''NAME'', dtype = Object, cells = [PyStr (''a'' @ [US] @ ''b''), PyNone]\<rparr>,
             \<lparr>label = ''QTY'', dtype = Float64, cells = [PyInt 1, PyNaN]\<rparr>]\<rparr>"

definition dup_frame :: dataframe where
  "dup_frame = \<lparr>nrows = 1,
     cols = [\<lparr>label = ''ID'', dtype = Object, cells = [PyStr ''x'']\<rparr>,
             \<lparr>label = ''ID'', dtype = Object, cells = [PyStr ''y'']\<rparr>]\<rparr>"

text \<open>The same world, except that the spreadsheet writer fails; and except that the client
  library cannot be initialised.\<close>

definition env_write_fails :: "int \<Rightarrow> env" where
  "env_write_fails n = (env_ok n small_result)\<lparr>to_excel_raises := (\<lambda>f. Some OSError)\<rparr>"

definition env_no_client :: env where
  "env_no_client = (env_ok 2 small_result)\<lparr>init_oracle_client_raises := Some DatabaseError\<rparr>"


definition drop_result :: result_set where
  "drop_result = \<lparr>description = [''N''], fetched = [PyNone] # replicate 599999 [PyInt 1],
                  fetch_error = None\<rparr>"


definition env_drop :: "int \<Rightarrow> result_set \<Rightarrow> env" where
  "env_drop n rs =
     (env_ok n rs)\<lparr>append_raises := (\<lambda>r. if r = [PyNone] then Some MemoryError else None)\<rparr>"

section \<open>Auxiliary facts\<close>

lemma DataFrame_Inr:
  assumes "DataFrame data names = Inr df"
  shows "nrows df = length data"
    and "cols df = map (\<lambda>j. Series (names ! j) (map (\<lambda>r. cell_at r j) data)) [0..<length names]"
  using assms by (auto simp: DataFrame_def split: if_splits)

lemma DataFrame_labels:
  assumes "DataFrame data names = Inr df"
  shows "map label (cols df) = names"
  using assms by (auto simp: DataFrame_def Series_def map_nth o_def split: if_splits)

lemma DataFrame_col:
  assumes "DataFrame data names = Inr df" "j < length names"
  shows "cols df ! j = Series (names ! j) (map (\<lambda>r. cell_at r j) data)"
  using assms by (simp add: DataFrame_Inr(2))

lemma infer_dtype_str:
  "PyStr s \<in> set vs \<Longrightarrow> infer_dtype vs = Object"
  by (auto simp: infer_dtype_def list_ex_iff intro: bexI[where x="PyStr s"])

lemma store_as_str [simp]: "store_as d (PyStr s) = PyStr s"
  by (simp add: store_as_def)

lemma store_as_Object [simp]: "store_as Object v = v"
  by (simp add: store_as_def)

lemma fillna_length [simp]: "length (cols (fillna df d)) = length (cols df)"
  by (simp add: fillna_def)

lemma fillna_nrows [simp]: "nrows (fillna df d) = nrows df"
  by (simp add: fillna_def)

lemma map_of_labels:
  assumes "distinct (map label cs)" "j < length cs"
  shows "map_of (map (\<lambda>c. (label c, g c)) cs) (label (cs ! j)) = Some (g (cs ! j))"
proof -
  have "map_of (zip (map label cs) (map g cs)) (map label cs ! j) = Some (map g cs ! j)"
    by (rule map_of_zip_nth) (use assms in simp_all)
  moreover have "zip (map label cs) (map g cs) = map (\<lambda>c. (label c, g c)) cs"
    by (induction cs) simp_all
  ultimately show ?thesis using assms by simp
qed

lemma label_strip_col [simp]: "label (strip_col c) = label c"
  by (simp add: strip_col_def astype_str_replace_def)

lemma label_fill_col [simp]: "label (fill_col c) = label c"
  by (simp add: fill_col_def)

lemma fill_value_fill_col [simp]: "fill_value (fill_col c) = fill_value c"
  by (simp add: fill_col_def fill_value_def)

lemma map_of_labels_mem:
  assumes "distinct (map label cs)" "c \<in> set cs"
  shows "map_of (map (\<lambda>c. (label c, g c)) cs) (label c) = Some (g c)"
  using assms map_of_labels[of cs _ g] by (auto simp: in_set_conv_nth)

lemma fill_dict_distinct:
  assumes "distinct (map label (cols df))"
  shows "fill_dict df = Inr (map (\<lambda>c. (label c, fill_value c)) (cols df))"
  using assms by (simp add: fill_dict_def fill_value_def)

lemma fillna_own_dict:
  assumes "distinct (map label (cols df))"
  shows "fillna df (map (\<lambda>c. (label c, fill_value c)) (cols df)) = df\<lparr>cols := map fill_col (cols df)\<rparr>"
proof -
  have "map (\<lambda>c. case map_of (map (\<lambda>c. (label c, fill_value c)) (cols df)) (label c) of
                None \<Rightarrow> c
              | Some x \<Rightarrow> c\<lparr>cells := map (\<lambda>v. if isnull v then x else v) (cells c)\<rparr>) (cols df)
        = map fill_col (cols df)"
    by (rule map_cong) (simp_all add: map_of_labels_mem[OF assms] fill_col_def)
  then show ?thesis by (simp add: fillna_def)
qed

lemma fill_col_idem [simp]: "fill_col (fill_col c) = fill_col c"
proof -
  have "\<not> isnull (fill_value c)" by (simp add: fill_value_def)
  then show ?thesis by (simp add: fill_col_def fill_value_def cong: if_cong)
qed

lemma sanitize_full_distinct:
  assumes "distinct (map label (cols df))"
  shows "sanitize_full df = Inr (df\<lparr>cols := map (fill_col \<circ> strip_col) (cols df)\<rparr>)"
proof -
  let ?df1 = "df\<lparr>cols := map strip_col (cols df)\<rparr>"
  have s: "strip_object_columns df = Inr ?df1"
    using assms by (simp add: strip_object_columns_def strip_col_def[abs_def])
  have d: "distinct (map label (cols ?df1))" using assms by (simp add: o_def)
  show ?thesis
    unfolding sanitize_full_def s using fill_dict_distinct[OF d] fillna_own_dict[OF d]
    by simp
qed

lemma sanitize_single_distinct:
  assumes "distinct (map label (cols df))"
  shows "sanitize_single df = Inr (df\<lparr>cols := map (fill_col \<circ> strip_col) (cols df)\<rparr>)"
proof -
  let ?df1 = "df\<lparr>cols := map strip_col (cols df)\<rparr>"
  let ?df2 = "?df1\<lparr>cols := map fill_col (cols ?df1)\<rparr>"
  have s: "strip_object_columns df = Inr ?df1"
    using assms by (simp add: strip_object_columns_def strip_col_def[abs_def])
  have d: "distinct (map label (cols ?df1))" using assms by (simp add: o_def)
  have d2: "distinct (map label (cols ?df2))" using assms by (simp add: o_def)
  have e: "map (\<lambda>c. (label c, fill_value c)) (cols ?df1) = map (\<lambda>c. (label c, fill_value c)) (cols ?df2)"
    by (simp add: o_def)
  have "fillna ?df2 (map (\<lambda>c. (label c, fill_value c)) (cols ?df1)) = ?df2\<lparr>cols := map fill_col (cols ?df2)\<rparr>"
    unfolding e by (rule fillna_own_dict[OF d2])
  then show ?thesis
    unfolding sanitize_single_def s using fill_dict_distinct[OF d] fillna_own_dict[OF d]
    by (simp add: o_def)
qed

lemma label_remap_col [simp]: "label (remap_col c) = label c"
  by (simp add: remap_col_def Series_def)

lemma sanitize_partial_distinct:
  assumes "distinct (map label (cols df))"
  shows "sanitize_partial df = Inr (df\<lparr>cols := map (fill_col \<circ> remap_col) (cols df)\<rparr>)"
proof -
  let ?df1 = "df\<lparr>cols := map remap_col (cols df)\<rparr>"
  have a: "applymap replace_if_str df = ?df1"
    by (simp add: applymap_def remap_col_def[abs_def])
  have d: "distinct (map label (cols ?df1))" using assms by (simp add: o_def)
  show ?thesis
    unfolding sanitize_partial_def a Let_def using fill_dict_distinct[OF d] fillna_own_dict[OF d]
    by simp
qed

lemma sanitize_dup:
  assumes "\<not> distinct (map label (cols df))"
  shows "sanitize_full df = Inl AttributeError" "sanitize_single df = Inl AttributeError"
        "sanitize_partial df = Inl AttributeError"
  using assms
  by (simp_all add: sanitize_full_def sanitize_single_def sanitize_partial_def
      strip_object_columns_def fill_dict_def applymap_def Series_def o_def)

lemma Series_simps [simp]:
  "label (Series name vs) = name"
  "dtype (Series name vs) = infer_dtype vs"
  "cells (Series name vs) = map (store_as (infer_dtype vs)) vs"
  by (simp_all add: Series_def)

lemma fill_col_simps [simp]:
  "dtype (fill_col c) = dtype c"
  "length (cells (fill_col c)) = length (cells c)"
  by (simp_all add: fill_col_def)

lemma fill_col_cell:
  "i < length (cells c) \<Longrightarrow>
   cells (fill_col c) ! i = (if isnull (cells c ! i) then fill_value c else cells c ! i)"
  by (simp add: fill_col_def)

lemma strip_col_Object:
  "dtype c = Object \<Longrightarrow> strip_col c = c\<lparr>cells := map (\<lambda>v. PyStr (replace_us (py_str v))) (cells c)\<rparr>"
  by (simp add: strip_col_def astype_str_replace_def)

lemma text_cell_full:
  assumes df: "DataFrame data names = Inr df"
    and i: "i < length data" and j: "j < length names"
    and s: "cell_at (data ! i) j = PyStr s"
  shows "frame_cell (df\<lparr>cols := map (fill_col \<circ> strip_col) (cols df)\<rparr>) i j = PyStr (replace_us s)"
proof -
  let ?vs = "map (\<lambda>r. cell_at r j) data"
  have col: "cols df ! j = Series (names ! j) ?vs" by (rule DataFrame_col[OF df j])
  have len: "length (cols df) = length names" by (simp add: DataFrame_Inr(2)[OF df])
  have "?vs ! i = PyStr s" using i s by simp
  then have "PyStr s \<in> set ?vs" using i by (metis length_map nth_mem)
  then have obj: "infer_dtype ?vs = Object" by (rule infer_dtype_str)
  have "cells (strip_col (cols df ! j)) ! i = PyStr (replace_us s)"
    using i s by (simp add: col strip_col_Object obj)
  moreover have "length (cells (strip_col (cols df ! j))) = length data"
    by (simp add: col strip_col_Object obj)
  ultimately show ?thesis
    using i j len by (simp add: frame_cell_def fill_col_cell)
qed

lemma text_cell_partial:
  assumes df: "DataFrame data names = Inr df"
    and i: "i < length data" and j: "j < length names"
    and s: "cell_at (data ! i) j = PyStr s"
  shows "frame_cell (df\<lparr>cols := map (fill_col \<circ> remap_col) (cols df)\<rparr>) i j = PyStr (replace_us s)"
proof -
  let ?vs = "map (\<lambda>r. cell_at r j) data"
  let ?ws = "map replace_if_str ?vs"
  have col: "cols df ! j = Series (names ! j) ?vs" by (rule DataFrame_col[OF df j])
  have len: "length (cols df) = length names" by (simp add: DataFrame_Inr(2)[OF df])
  have "?vs ! i = PyStr s" using i s by simp
  then have "PyStr s \<in> set ?vs" using i by (metis length_map nth_mem)
  then have obj: "infer_dtype ?vs = Object" by (rule infer_dtype_str)
  have "?ws ! i = PyStr (replace_us s)" using i s by simp
  then have "PyStr (replace_us s) \<in> set ?ws" using i by (metis length_map nth_mem)
  then have obj2: "infer_dtype ?ws = Object" by (rule infer_dtype_str)
  have "cells (remap_col (cols df ! j)) ! i = PyStr (replace_us s)"
    using i s by (simp add: col remap_col_def obj obj2 o_def)
  moreover have "length (cells (remap_col (cols df ! j))) = length data"
    by (simp add: col remap_col_def)
  ultimately show ?thesis
    using i j len by (simp add: frame_cell_def fill_col_cell)
qed

lemma remap_pres [simp]:
  "is_str (replace_if_str (store_as d v)) = is_str v"
  "is_int (replace_if_str (store_as d v)) = is_int v"
  "(replace_if_str (store_as d v) = PyNone) = (v = PyNone \<and> d \<noteq> Float64)"
  by (cases v; simp add: store_as_def)+

lemma infer_dtype_remap:
  "infer_dtype (map replace_if_str (map (store_as (infer_dtype vs)) vs)) = infer_dtype vs"
  by (auto simp: infer_dtype_def list_all_iff list_ex_iff)

lemma store_as_remap:
  "store_as d (replace_if_str (store_as d v)) = replace_if_str (store_as d v)"
  by (cases v; simp add: store_as_def)

lemma remap_col_Series:
  "remap_col (Series name vs) = (Series name vs)\<lparr>cells := map replace_if_str (cells (Series name vs))\<rparr>"
proof -
  let ?ws = "map replace_if_str (map (store_as (infer_dtype vs)) vs)"
  have "map (store_as (infer_dtype ?ws)) ?ws = ?ws"
    unfolding infer_dtype_remap by (simp add: store_as_remap)
  then show ?thesis
    unfolding remap_col_def Series_def by (simp only: column.simps infer_dtype_remap)
qed

lemma applymap_cell:
  assumes df: "DataFrame data names = Inr df"
    and i: "i < length data" and j: "j < length names"
  shows "frame_cell (applymap replace_if_str df) i j = replace_if_str (frame_cell df i j)"
proof -
  have col: "cols df ! j = Series (names ! j) (map (\<lambda>r. cell_at r j) data)"
    by (rule DataFrame_col[OF df j])
  have len: "length (cols df) = length names" by (simp add: DataFrame_Inr(2)[OF df])
  have "applymap replace_if_str df = df\<lparr>cols := map remap_col (cols df)\<rparr>"
    by (simp add: applymap_def remap_col_def[abs_def])
  then show ?thesis
    using i j len by (simp add: frame_cell_def col remap_col_Series)
qed

lemma object_cell_full:
  assumes df: "DataFrame data names = Inr df"
    and i: "i < length data" and j: "j < length names"
    and obj: "dtype (cols df ! j) = Object"
  shows "frame_cell (df\<lparr>cols := map (fill_col \<circ> strip_col) (cols df)\<rparr>) i j
         = PyStr (replace_us (py_str (frame_cell df i j)))"
proof -
  have col: "cols df ! j = Series (names ! j) (map (\<lambda>r. cell_at r j) data)"
    by (rule DataFrame_col[OF df j])
  have len: "length (cols df) = length names" by (simp add: DataFrame_Inr(2)[OF df])
  have n: "length (cells (cols df ! j)) = length data" by (simp add: col)
  show ?thesis
    using i j len n obj by (simp add: frame_cell_def fill_col_cell strip_col_Object)
qed

lemma small_frame: "DataFrame (fetched small_result) (description small_result) = Inr small_frame"
  by code_simp

lemma dup_frame: "DataFrame [[PyStr ''x'', PyStr ''y'']] [''ID'', ''ID''] = Inr dup_frame"
  by code_simp

lemma null_cell_partial:
  assumes df: "DataFrame data names = Inr df"
    and i: "i < length data" and j: "j < length names"
    and obj: "dtype (cols df ! j) = Object" and null: "isnull (frame_cell df i j)"
  shows "frame_cell (df\<lparr>cols := map (fill_col \<circ> remap_col) (cols df)\<rparr>) i j = PyStr []"
proof -
  have col: "cols df ! j = Series (names ! j) (map (\<lambda>r. cell_at r j) data)"
    by (rule DataFrame_col[OF df j])
  have len: "length (cols df) = length names" by (simp add: DataFrame_Inr(2)[OF df])
  have n: "length (cells (cols df ! j)) = length data" by (simp add: col)
  have r: "isnull (replace_if_str v) = isnull v" for v by (cases v) simp_all
  have "cells (fill_col (remap_col (cols df ! j))) ! i = PyStr []"
    using i n obj null unfolding col remap_col_Series
    by (simp add: fill_col_cell fill_value_def frame_cell_def col r)
  then show ?thesis using j len by (simp add: frame_cell_def)
qed

lemma sanitizers_differ_on_small_frame:
  "sanitize_full small_frame \<noteq> sanitize_partial small_frame"
  "sanitize_single small_frame \<noteq> sanitize_partial small_frame"
  by code_simp+

lemma count_US: "length (filter (\<lambda>c. c \<noteq> US) s) = length s - count_list s US"
  by (induction s) (auto simp: Suc_diff_le count_le_length)

lemma res_view_updates [simp]:
  "res_view (s\<lparr>logs := l\<rparr>) = res_view s"
  "res_view (s\<lparr>xlsx := x\<rparr>) = res_view s"
  "res_view (s\<lparr>files := f\<rparr>) = res_view s"
  "res_view (s\<lparr>columns := c\<rparr>) = res_view s"
  "res_view (s\<lparr>row := r\<rparr>) = res_view s"
  by (simp_all add: res_view_def)

lemma res_view_read_db_config: "read_db_config s = (out, s') \<Longrightarrow> res_view s' = res_view s"
  by (auto simp: read_db_config_def split: option.splits)

lemma res_view_validate_sql: "validate_sql env sql s = (out, s') \<Longrightarrow> res_view s' = res_view s"
  by (auto simp: validate_sql_def split: sum.splits if_splits)

lemma res_view_to_excel: "to_excel env df f s = (out, s') \<Longrightarrow> res_view s' = res_view s"
  by (auto simp: to_excel_def split: option.splits)

lemma res_view_write_full_chunk:
  "write_full_chunk env names ch k s = (out, s') \<Longrightarrow> res_view s' = res_view s"
  by (auto simp: write_full_chunk_def split: sum.splits prod.splits option.splits
      dest: res_view_to_excel)

lemma res_view_write_partial_chunk:
  "write_partial_chunk env names ch k s = (out, s') \<Longrightarrow> res_view s' = res_view s"
  by (auto simp: write_partial_chunk_def split: sum.splits prod.splits option.splits
      dest: res_view_to_excel)

lemma res_view_accumulate:
  "accumulate env names r ch n s = (out, s') \<Longrightarrow> res_view s' = res_view s"
  by (auto simp: accumulate_def split: option.splits)

lemma res_view_export_rows:
  "export_rows env names c rows ch n k s = (out, s') \<Longrightarrow> res_view s' = res_view s"
proof (induction rows arbitrary: ch n k s)
  case Nil
  then show ?case by simp
next
  case (Cons r rows)
  obtain ch1 n1 s1 where a: "accumulate env names r ch n (s\<lparr>row := Some r\<rparr>) = ((ch1, n1), s1)"
    by (metis prod.exhaust)
  have v1: "res_view s1 = res_view s" using res_view_accumulate[OF a] by simp
  show ?case
  proof (cases "c \<le> n1")
    case True
    obtain o2 s2 where w: "write_full_chunk env names ch1 k s1 = (o2, s2)" by (metis prod.exhaust)
    have v2: "res_view s2 = res_view s" using res_view_write_full_chunk[OF w] v1 by simp
    show ?thesis
    proof (cases o2)
      case None
      with Cons.prems a True w have "export_rows env names c rows [] 0 (k + 1) s2 = (out, s')"
        by simp
      from Cons.IH[OF this] v2 show ?thesis by simp
    next
      case (Some e)
      with Cons.prems a True w have "s' = s2" by simp
      with v2 show ?thesis by simp
    qed
  next
    case False
    with Cons.prems a have "export_rows env names c rows ch1 n1 k s1 = (out, s')" by simp
    from Cons.IH[OF this] v1 show ?thesis by simp
  qed
qed

lemma res_view_export_single:
  assumes "export_single env sql s = (out, s')"
  shows "res_view s' = (events s @ [CursorClosed, CursorOpened], connection s, cursor s)"
proof -
  have "res_view s' = res_view (s\<lparr>events := events s @ [CursorClosed, CursorOpened]\<rparr>)"
    using assms
    by (auto simp: export_single_def Let_def split: sum.splits option.splits prod.splits
        dest!: res_view_to_excel)
  then show ?thesis by (simp add: res_view_def)
qed

lemma res_view_export_multi:
  assumes "export_multi env sql s = (out, s')"
  shows "res_view s' = (events s @ [CursorClosed, CursorOpened], connection s, cursor s)"
proof -
  have "res_view s' = res_view (s\<lparr>events := events s @ [CursorClosed, CursorOpened]\<rparr>)"
    using assms
    by (auto simp: export_multi_def Let_def split: sum.splits option.splits prod.splits if_splits
        dest!: res_view_export_rows res_view_write_partial_chunk)
  then show ?thesis by (simp add: res_view_def)
qed

lemma res_view_try_block:
  assumes "try_block env sql s = (out, s')"
  shows "res_view s' = res_view s
       \<or> res_view s' = (events s @ [ConnectionOpened, CursorOpened], True, True)
       \<or> res_view s' = (events s @ [ConnectionOpened, CursorOpened, CursorClosed, CursorOpened], True, True)"
  using assms
  apply (simp add: try_block_def split: option.splits prod.splits sum.splits if_splits)
  apply (auto dest!: res_view_read_db_config res_view_validate_sql res_view_export_single res_view_export_multi)
  apply (simp_all add: res_view_def)
  done

lemma res_view_except_clauses:
  "except_clauses x s = (out, s') \<Longrightarrow> res_view s' = res_view s"
  by (auto simp: except_clauses_def split: raised.splits if_splits option.splits)

lemma execute_events:
  obtains "events (snd (execute_query_and_export_to_excel env sql s)) = events s"
  | "events (snd (execute_query_and_export_to_excel env sql s)) =
       events s @ [ConnectionOpened, CursorOpened, CursorClosed, ConnectionClosed]"
  | "events (snd (execute_query_and_export_to_excel env sql s)) =
       events s @ [ConnectionOpened, CursorOpened, CursorClosed, CursorOpened, CursorClosed, ConnectionClosed]"
proof -
  let ?s0 = "s\<lparr>connection := False, cursor := False, columns := None, row := None\<rparr>"
  obtain out1 s1 where t: "try_block env sql ?s0 = (out1, s1)" by (metis prod.exhaust)
  obtain s2 where e: "res_view s2 = res_view s1"
    and r: "snd (execute_query_and_export_to_excel env sql s) = finally_block s2"
  proof (cases out1)
    case None
    then show ?thesis using t that[of s1] by (simp add: execute_query_and_export_to_excel_def)
  next
    case (Some x)
    obtain out2 s2 where x: "except_clauses x s1 = (out2, s2)" by (metis prod.exhaust)
    then show ?thesis using Some t that[of s2] res_view_except_clauses[OF x]
      by (simp add: execute_query_and_export_to_excel_def)
  qed
  have v0: "res_view ?s0 = (events s, False, False)" by (simp add: res_view_def)
  from res_view_try_block[OF t] e
  consider "res_view s2 = (events s, False, False)"
    | "res_view s2 = (events s @ [ConnectionOpened, CursorOpened], True, True)"
    | "res_view s2 = (events s @ [ConnectionOpened, CursorOpened, CursorClosed, CursorOpened], True, True)"
    by (auto simp: res_view_def)
  then show ?thesis
  proof cases
    case 1
    then show ?thesis using r that(1) by (simp add: res_view_def finally_block_def)
  next
    case 2
    then show ?thesis using r that(2) by (simp add: res_view_def finally_block_def)
  next
    case 3
    then show ?thesis using r that(3) by (simp add: res_view_def finally_block_def)
  qed
qed

lemma default_sql_stripped: "strip (universal_newlines (default_sql @ [LF])) = ''SELECT * FROM dual''"
  by code_simp

lemma read_sql_missing:
  assumes "files s file_path = None"
  shows "read_sql_from_file file_path s =
    (''SELECT * FROM dual'',
     s\<lparr>files := (files s)(file_path \<mapsto> ''SELECT * FROM dual'' @ [LF]),
       logs := logs s @ [InfoSqlFileCreated file_path]\<rparr>)"
  using assms default_sql_stripped by (simp add: read_sql_from_file_def default_sql_def)

lemma execute_no_config:
  assumes "files s ''database.txt'' = None" "init_oracle_client_raises env = None"
  shows "execute_query_and_export_to_excel env sql s =
    (Some (SystemExit 0),
     s\<lparr>connection := False, cursor := False, columns := None, row := None,
       logs := logs s @ [InfoClientInit, InfoConfigCreated, InfoEditConfig],
       files := (files s)(''database.txt'' \<mapsto> placeholder_config)\<rparr>)"
  using assms
  by (simp add: execute_query_and_export_to_excel_def try_block_def read_db_config_def
      except_clauses_def finally_block_def)

lemma read_sql_keeps_other_files:
  assumes "read_sql_from_file file_path s = (sql, s1)" "f \<noteq> file_path"
  shows "files s1 f = files s f" "events s1 = events s" "xlsx s1 = xlsx s"
  using assms by (auto simp: read_sql_from_file_def Let_def split: option.splits if_splits)

lemma read_db_config_logs:
  "read_db_config (s\<lparr>logs := l\<rparr>) =
     (case read_db_config s of (Inr c, s') \<Rightarrow> (Inr c, s\<lparr>logs := l\<rparr>)
      | (Inl x, s') \<Rightarrow> (Inl x, s'\<lparr>logs := l @ [InfoConfigCreated, InfoEditConfig]\<rparr>))"
  by (simp add: read_db_config_def split: option.splits)

lemma try_block_ready:
  assumes "db_ready env s" "query_ready env sql n rs"
  shows "try_block env sql s =
     (if n \<le> 500000 then export_single env sql (connected n s)
      else export_multi env sql (connected n s))"
  using assms
  by (auto simp: db_ready_def query_ready_def try_block_def read_db_config_logs validate_sql_def
      connected_def split: prod.splits sum.splits option.splits)

lemma fold_max_const:
  assumes "\<forall>r\<in>set data. length r = n"
  shows "fold max (map length data) a = (if data = [] then a else max a n)"
  using assms by (induction data arbitrary: a) (auto simp: max.assoc)

lemma DataFrame_ok:
  assumes "\<forall>r\<in>set data. length r = length names"
  shows "\<exists>df. DataFrame data names = Inr df \<and> nrows df = length data
              \<and> distinct (map label (cols df)) = distinct names"
proof -
  have "data \<noteq> [] \<Longrightarrow> fold max (map length data) 0 = length names"
    using fold_max_const[OF assms, of 0] by simp
  then have "\<exists>df. DataFrame data names = Inr df"
    by (cases "data = []") (simp_all add: DataFrame_def)
  then obtain df where df: "DataFrame data names = Inr df" ..
  then show ?thesis using DataFrame_Inr(1)[OF df] DataFrame_labels[OF df] by simp
qed

lemma frames_ok:
  assumes "\<forall>r\<in>set data. length r = length names" "distinct names"
  shows "\<exists>df. single_frame names data = Inr df \<and> nrows df = length data"
    and "\<exists>df. full_frame names data = Inr df \<and> nrows df = length data"
    and "\<exists>df. partial_frame names data = Inr df \<and> nrows df = length data"
proof -
  from DataFrame_ok[OF assms(1)] assms(2) obtain df where
    df: "DataFrame data names = Inr df" "nrows df = length data" "distinct (map label (cols df))"
    by auto
  show "\<exists>df. single_frame names data = Inr df \<and> nrows df = length data"
    by (simp add: single_frame_def df sanitize_single_distinct)
  show "\<exists>df. full_frame names data = Inr df \<and> nrows df = length data"
    by (simp add: full_frame_def df sanitize_full_distinct)
  show "\<exists>df. partial_frame names data = Inr df \<and> nrows df = length data"
    by (simp add: partial_frame_def df sanitize_partial_distinct)
qed

lemma write_full_chunk_frame:
  "write_full_chunk env names ch k s =
     (case full_frame names ch of
        Inl e \<Rightarrow> (Some e, s)
      | Inr df \<Rightarrow>
          (case to_excel_raises env (chunk_filename k) of
             Some e \<Rightarrow> (Some e, s)
           | None \<Rightarrow> (None, s\<lparr>xlsx := xlsx s @ [(chunk_filename k, df)],
                              logs := logs s @ [InfoSaved (chunk_filename k)]\<rparr>)))"
  by (simp add: write_full_chunk_def full_frame_def to_excel_def split: sum.splits option.splits)

lemma write_partial_chunk_frame:
  "write_partial_chunk env names ch k s =
     (case partial_frame names ch of
        Inl e \<Rightarrow> (Some e, s)
      | Inr df \<Rightarrow>
          (case to_excel_raises env (chunk_filename k) of
             Some e \<Rightarrow> (Some e, s)
           | None \<Rightarrow> (None, s\<lparr>xlsx := xlsx s @ [(chunk_filename k, df)],
                              logs := logs s @ [InfoSaved (chunk_filename k)]\<rparr>)))"
  by (simp add: write_partial_chunk_def partial_frame_def to_excel_def split: sum.splits option.splits)

lemma full_chunks_short:
  "length xs < c \<Longrightarrow> full_chunks c xs = []" "length xs < c \<Longrightarrow> last_chunk c xs = xs"
  by (simp_all add: full_chunks_def last_chunk_def)

lemma chunk_prefix:
  assumes "length p = c" "0 < c"
  shows "full_chunks c (p @ xs) = p # full_chunks c xs"
    and "last_chunk c (p @ xs) = last_chunk c xs"
    and "length (p @ xs) div c = Suc (length xs div c)"
proof -
  show d: "length (p @ xs) div c = Suc (length xs div c)"
    using assms div_add_self1[of c "length xs"] by simp
  have "full_chunks c (p @ xs) = map (\<lambda>i. take c (drop (i * c) (p @ xs))) [0..<Suc (length xs div c)]"
    unfolding full_chunks_def d ..
  also have "\<dots> = take c (p @ xs) # map (\<lambda>i. take c (drop (Suc i * c) (p @ xs))) [0..<length xs div c]"
    by (simp add: map_upt_Suc del: upt_Suc mult_Suc)
  also have "take c (p @ xs) = p" using assms by simp
  also have "map (\<lambda>i. take c (drop (Suc i * c) (p @ xs))) [0..<length xs div c]
           = map (\<lambda>i. take c (drop (i * c) xs)) [0..<length xs div c]"
    using assms by (intro map_cong) simp_all
  finally show "full_chunks c (p @ xs) = p # full_chunks c xs" by (simp add: full_chunks_def)
  show "last_chunk c (p @ xs) = last_chunk c xs"
    unfolding last_chunk_def d using assms by simp
qed

lemma row_errors_simps [simp]:
  "row_errors [] = []"
  "row_errors (l @ m) = row_errors l @ row_errors m"
  "row_errors [ErrorRow i names r e] = [(i, names, r)]"
  "row_errors [InfoSaved f] = []"
  by (simp_all add: row_errors_def List.map_filter_def)

lemma expected_Nil [simp]: "expected_row_errors env names c n0 [] = []"
  by (simp add: expected_row_errors_def)

lemma upt_0_Suc: "[0..<Suc n] = 0 # map Suc [0..<n]"
  by (simp add: upt_conv_Cons map_Suc_upt del: upt_Suc)

lemma expected_Cons_fail:
  assumes "append_raises env r = Some e" "n0 < c"
  shows "expected_row_errors env names c n0 (r # rows)
       = (n0, names, r) # expected_row_errors env names c n0 rows"
  using assms
  by (simp add: expected_row_errors_def upt_0_Suc filter_map o_def accumulated_def del: upt_Suc)

lemma expected_Cons_ok:
  assumes "append_raises env r = None" "n0 < c"
  shows "expected_row_errors env names c n0 (r # rows)
       = expected_row_errors env names c (if c \<le> Suc n0 then 0 else Suc n0) rows"
proof -
  have m: "(Suc (n0 + x)) mod c = ((if c \<le> Suc n0 then 0 else Suc n0) + x) mod c" for x
  proof (cases "c \<le> Suc n0")
    case True
    with assms have c: "c = Suc n0" by simp
    have "Suc (n0 + x) = Suc n0 + x" by simp
    then have "Suc (n0 + x) mod Suc n0 = x mod Suc n0" by (simp only: mod_add_self1)
    then show ?thesis using True unfolding c by simp
  next
    case False
    then show ?thesis by simp
  qed
  show ?thesis
    using assms
    by (simp add: expected_row_errors_def upt_0_Suc filter_map o_def accumulated_def m
        del: upt_Suc)
qed

lemma accumulated_Cons:
  "accumulated env (r # rows) =
     (if append_raises env r = None then r # accumulated env rows else accumulated env rows)"
  by (simp add: accumulated_def)

lemma export_rows_run:
  assumes w: "\<forall>f. to_excel_raises env f = None" and d: "distinct names" and c: "0 < c"
  shows "\<lbrakk>\<forall>r\<in>set chunk \<union> set rows. length r = length names; length chunk < c;
          export_rows env names c rows chunk (length chunk) k s = (out, s')\<rbrakk>
         \<Longrightarrow> out = Inr (last_chunk c (chunk @ accumulated env rows),
                         k + length (chunk @ accumulated env rows) div c)
           \<and> xlsx s' = xlsx s @ numbered_full names k (full_chunks c (chunk @ accumulated env rows))
           \<and> row_errors (logs s')
               = row_errors (logs s) @ expected_row_errors env names c (length chunk) rows
           \<and> files s' = files s \<and> columns s' = columns s"
proof (induction rows arbitrary: chunk k s)
  case Nil
  then show ?case by (simp add: accumulated_def full_chunks_short)
next
  case (Cons r rows)
  let ?s0 = "s\<lparr>row := Some r\<rparr>"
  show ?case
  proof (cases "append_raises env r")
    case (Some e)
    let ?s1 = "?s0\<lparr>logs := logs ?s0 @ [ErrorRow (length chunk) names r e]\<rparr>"
    have a: "accumulate env names r chunk (length chunk) ?s0 = ((chunk, length chunk), ?s1)"
      by (simp add: accumulate_def Some)
    have run: "export_rows env names c rows chunk (length chunk) k ?s1 = (out, s')"
      using Cons.prems(3) Cons.prems(2) a by simp
    have wf: "\<forall>r\<in>set chunk \<union> set rows. length r = length names" using Cons.prems(1) by simp
    from Cons.IH[OF wf Cons.prems(2) run] show ?thesis
      by (simp add: accumulated_Cons Some expected_Cons_fail[OF Some Cons.prems(2)])
  next
    case None
    let ?ch = "chunk @ [r]"
    have a: "accumulate env names r chunk (length chunk) ?s0 = ((?ch, length ?ch), ?s0)"
      by (simp add: accumulate_def None)
    have acc: "chunk @ accumulated env (r # rows) = ?ch @ accumulated env rows"
      by (simp add: accumulated_Cons None)
    show ?thesis
    proof (cases "c \<le> length ?ch")
      case True
      then have len: "length ?ch = c" using Cons.prems(2) by simp
      have "\<forall>r\<in>set ?ch. length r = length names" using Cons.prems(1) by simp
      from frames_ok(2)[OF this d] obtain df where df: "full_frame names ?ch = Inr df" by blast
      let ?s2 = "?s0\<lparr>xlsx := xlsx ?s0 @ [(chunk_filename k, df)],
                       logs := logs ?s0 @ [InfoSaved (chunk_filename k)]\<rparr>"
      have wr: "write_full_chunk env names ?ch k ?s0 = (None, ?s2)"
        using w by (simp add: write_full_chunk_frame df)
      have run: "export_rows env names c rows [] (length ([]::pyval list list)) (k + 1) ?s2 = (out, s')"
        using Cons.prems(3) a True wr by simp
      have wf: "\<forall>r\<in>set [] \<union> set rows. length r = length names" using Cons.prems(1) by simp
      have lt: "length ([]::pyval list list) < c" using c by simp
      note ih = Cons.IH[OF wf lt run]
      have e: "expected_row_errors env names c (length chunk) (r # rows)
             = expected_row_errors env names c 0 rows"
        using expected_Cons_ok[OF None Cons.prems(2), of names rows] True by simp
      have dv: "Suc (length chunk + length (accumulated env rows)) div c
              = Suc (length (accumulated env rows) div c)"
        using chunk_prefix(3)[OF len c, of "accumulated env rows"] by simp
      show ?thesis
        unfolding acc using ih
        by (simp add: chunk_prefix(1,2)[OF len c] dv e df del: append.simps(2) append_assoc)
    next
      case False
      then have lt: "length ?ch < c" by simp
      have run: "export_rows env names c rows ?ch (length ?ch) k ?s0 = (out, s')"
        using Cons.prems(3) a False by simp
      have wf: "\<forall>r\<in>set ?ch \<union> set rows. length r = length names" using Cons.prems(1) by simp
      note ih = Cons.IH[OF wf lt run]
      have e: "expected_row_errors env names c (length chunk) (r # rows)
             = expected_row_errors env names c (length ?ch) rows"
        using expected_Cons_ok[OF None Cons.prems(2), of names rows] False by simp
      show ?thesis unfolding acc e using ih by simp
    qed
  qed
qed

lemma last_chunk_subset: "set (last_chunk c xs) \<subseteq> set xs"
  by (simp add: last_chunk_def set_drop_subset)

lemma accumulated_subset: "set (accumulated env rows) \<subseteq> set rows"
  by (auto simp: accumulated_def)

lemma row_errors_info [simp]:
  "row_errors [InfoClientInit, InfoTotalRows n] = []"
  "row_errors [InfoExported f] = []"
  by (simp_all add: row_errors_def List.map_filter_def)

lemma export_multi_run:
  assumes cl: "clean_stream env rs" and q: "query_result env sql = Inr rs"
  shows "\<exists>s'. export_multi env sql s = (None, s')
          \<and> xlsx s' = xlsx s @ multi_files (description rs) 200000 (accumulated env (fetched rs))
          \<and> row_errors (logs s')
              = row_errors (logs s) @ expected_row_errors env (description rs) 200000 0 (fetched rs)
          \<and> files s' = files s"
proof -
  let ?names = "description rs" and ?K = "accumulated env (fetched rs)"
  let ?s2 = "s\<lparr>events := events s @ [CursorClosed, CursorOpened], columns := Some ?names\<rparr>"
  from cl have w: "\<forall>f. to_excel_raises env f = None" and d: "distinct ?names"
    and wf: "\<forall>r\<in>set (fetched rs). length r = length ?names" and fe: "fetch_error rs = None"
    by (simp_all add: clean_stream_def)
  obtain out s3 where run: "export_rows env ?names 200000 (fetched rs) [] (length ([]::pyval list list)) 1 ?s2 = (out, s3)"
    by (metis prod.exhaust)
  have wf0: "\<forall>r\<in>set [] \<union> set (fetched rs). length r = length ?names" using wf by simp
  have "0 < (200000::nat)" "length ([]::pyval list list) < 200000" by simp_all
  from export_rows_run[OF w d this(1) wf0 this(2) run]
  have out: "out = Inr (last_chunk 200000 ?K, 1 + length ?K div 200000)"
    and x3: "xlsx s3 = xlsx s @ numbered_full ?names 1 (full_chunks 200000 ?K)"
    and l3: "row_errors (logs s3) = row_errors (logs s) @ expected_row_errors env ?names 200000 0 (fetched rs)"
    and f3: "files s3 = files s"
    by simp_all
  have e: "export_multi env sql s =
      (if last_chunk 200000 ?K \<noteq> []
       then (case write_partial_chunk env ?names (last_chunk 200000 ?K) (1 + length ?K div 200000) s3 of
               (Some e, s4) \<Rightarrow> (Some (Exception e), s4) | (None, s4) \<Rightarrow> (None, s4))
       else (None, s3))"
    using run out by (simp add: export_multi_def q fe Let_def)
  show ?thesis
  proof (cases "last_chunk 200000 ?K = []")
    case True
    then show ?thesis using e x3 l3 f3 by (simp add: multi_files_def)
  next
    case False
    have "\<forall>r\<in>set (last_chunk 200000 ?K). length r = length ?names"
      using wf last_chunk_subset[of 200000 ?K] accumulated_subset[of env "fetched rs"] by blast
    from frames_ok(3)[OF this d] obtain df where df: "partial_frame ?names (last_chunk 200000 ?K) = Inr df"
      by blast
    show ?thesis using e False x3 l3 f3 w
      by (simp add: multi_files_def write_partial_chunk_frame df)
  qed
qed


lemma db_ready_locals [simp]:
  "db_ready env (s\<lparr>connection := a, cursor := b, columns := cs, row := r\<rparr>) = db_ready env s"
  by (simp add: db_ready_def read_db_config_def split: option.splits)

lemma finally_block_keeps [simp]:
  "xlsx (finally_block s) = xlsx s" "logs (finally_block s) = logs s"
  "files (finally_block s) = files s"
  by (simp_all add: finally_block_def Let_def)

lemma execute_multi_run:
  assumes "db_ready env s" "query_ready env sql n rs" "clean_stream env rs" "500000 < n"
  shows "\<exists>s'. execute_query_and_export_to_excel env sql s = (None, s')
          \<and> xlsx s' = xlsx s @ multi_files (description rs) 200000 (accumulated env (fetched rs))
          \<and> row_errors (logs s')
              = row_errors (logs s) @ expected_row_errors env (description rs) 200000 0 (fetched rs)"
proof -
  let ?s0 = "s\<lparr>connection := False, cursor := False, columns := None, row := None\<rparr>"
  have q: "query_result env sql = Inr rs" using assms(2) by (simp add: query_ready_def)
  have t: "try_block env sql ?s0 = export_multi env sql (connected n ?s0)"
    using try_block_ready[of env ?s0 sql n rs] assms by simp
  from export_multi_run[OF assms(3) q, of "connected n ?s0"] obtain s1 where
    "export_multi env sql (connected n ?s0) = (None, s1)"
    "xlsx s1 = xlsx (connected n ?s0) @ multi_files (description rs) 200000 (accumulated env (fetched rs))"
    "row_errors (logs s1) = row_errors (logs (connected n ?s0))
        @ expected_row_errors env (description rs) 200000 0 (fetched rs)"
    by blast
  then show ?thesis
    by (simp add: execute_query_and_export_to_excel_def t connected_def)
qed


lemma length_full_chunks [simp]: "length (full_chunks c xs) = length xs div c"
  by (simp add: full_chunks_def)

lemma length_last_chunk [simp]: "length (last_chunk c xs) = length xs mod c"
  by (simp add: last_chunk_def minus_div_mult_eq_mod)

lemma full_chunk_length:
  assumes "ch \<in> set (full_chunks c xs)"
  shows "length ch = c" and "set ch \<subseteq> set xs"
proof -
  from assms obtain i where i: "i < length xs div c" and ch: "ch = take c (drop (i * c) xs)"
    by (auto simp: full_chunks_def)
  have "Suc i * c \<le> length xs div c * c" using i by (intro mult_le_mono1) simp
  also have "\<dots> \<le> length xs" by simp
  finally have "i * c + c \<le> length xs" by simp
  then show "length ch = c" unfolding ch by simp
  show "set ch \<subseteq> set xs" unfolding ch
    by (meson set_take_subset set_drop_subset subset_trans)
qed

lemma map_const_replicate:
  "\<forall>x\<in>set xs. f x = c \<Longrightarrow> map f xs = replicate (length xs) c"
  by (induction xs) simp_all

lemma full_chunks_all_length: "map length (full_chunks c xs) = replicate (length xs div c) c"
proof -
  have "map length (full_chunks c xs) = replicate (length (full_chunks c xs)) c"
    by (rule map_const_replicate) (simp add: full_chunk_length(1))
  then show ?thesis by simp
qed


lemma numbered_full_names:
  "map fst (numbered_full names k chs) = map chunk_filename [k..<k + length chs]"
  by (induction chs arbitrary: k) (simp_all add: upt_conv_Cons del: upt_Suc)

lemma numbered_full_frames:
  assumes "distinct names" "\<forall>ch\<in>set chs. \<forall>r\<in>set ch. length r = length names"
  shows "list_all2 (\<lambda>ch w. full_frame names ch = Inr (snd w) \<and> nrows (snd w) = length ch)
           chs (numbered_full names k chs)"
  using assms(2)
proof (induction chs arbitrary: k)
  case Nil
  then show ?case by simp
next
  case (Cons ch chs)
  from frames_ok(2)[OF _ assms(1), of ch] Cons.prems
  obtain df where "full_frame names ch = Inr df" "nrows df = length ch" by auto
  then show ?case using Cons by simp
qed

lemma length_accumulated:
  "length (accumulated env rows) = length rows - length (dropped env rows)"
  using sum_length_filter_compl[of "\<lambda>r. append_raises env r = None" rows]
  by (simp add: accumulated_def dropped_def)

lemma length_dropped_le: "length (dropped env rows) \<le> length rows"
  by (simp add: dropped_def)

lemma list_all2_sizes:
  assumes "list_all2 (\<lambda>ch w. P ch w \<and> nrows (snd w) = length ch) chs ws"
  shows "file_sizes ws = map length chs"
  using assms unfolding file_sizes_def by (induction rule: list_all2_induct) simp_all

lemma multi_files_facts:
  assumes d: "distinct names" and wf: "\<forall>r\<in>set kept. length r = length names" and c: "0 < c"
  shows "file_names (multi_files names c kept)
           = map chunk_filename
               [1..<Suc (length kept div c + (if length kept mod c = 0 then 0 else 1))]"
    and "file_sizes (multi_files names c kept)
           = replicate (length kept div c) c
             @ (if length kept mod c = 0 then [] else [length kept mod c])"
    and "list_all2 (\<lambda>ch w. (full_frame names ch = Inr (snd w) \<or> partial_frame names ch = Inr (snd w))
                            \<and> nrows (snd w) = length ch)
           (full_chunks c kept @ (if last_chunk c kept = [] then [] else [last_chunk c kept]))
           (multi_files names c kept)"
proof -
  let ?last = "last_chunk c kept"
  have e: "(?last = []) = (length kept mod c = 0)"
    using length_last_chunk[of c kept] by (metis length_0_conv)
  have wfc: "\<forall>ch\<in>set (full_chunks c kept). \<forall>r\<in>set ch. length r = length names"
    using wf full_chunk_length(2)[of _ c kept] by blast
  note f = numbered_full_frames[OF d wfc, of 1]
  have "\<forall>r\<in>set ?last. length r = length names" using wf last_chunk_subset[of c kept] by blast
  from frames_ok(3)[OF this d] obtain df where
    df: "partial_frame names ?last = Inr df" "nrows df = length ?last" by blast
  show "file_names (multi_files names c kept)
           = map chunk_filename
               [1..<Suc (length kept div c + (if length kept mod c = 0 then 0 else 1))]"
    by (simp add: file_names_def multi_files_def numbered_full_names e)
  have "file_sizes (numbered_full names 1 (full_chunks c kept)) = map length (full_chunks c kept)"
    using f by (rule list_all2_sizes)
  then show "file_sizes (multi_files names c kept)
           = replicate (length kept div c) c
             @ (if length kept mod c = 0 then [] else [length kept mod c])"
    using df by (simp add: file_sizes_def multi_files_def e full_chunks_all_length)
  have f': "list_all2 (\<lambda>ch w. (full_frame names ch = Inr (snd w) \<or> partial_frame names ch = Inr (snd w))
                            \<and> nrows (snd w) = length ch)
           (full_chunks c kept) (numbered_full names 1 (full_chunks c kept))"
    using f by (rule list_all2_mono) simp
  show "list_all2 (\<lambda>ch w. (full_frame names ch = Inr (snd w) \<or> partial_frame names ch = Inr (snd w))
                            \<and> nrows (snd w) = length ch)
           (full_chunks c kept @ (if last_chunk c kept = [] then [] else [last_chunk c kept]))
           (multi_files names c kept)"
    unfolding multi_files_def using f' df
    by (auto intro!: list_all2_appendI)
qed

lemma sum_sizes:
  "sum_list (replicate q c @ (if m mod c = 0 then [] else [m mod c])) = q * c + m mod c"
  by (simp add: sum_list_replicate)

lemma str_nat_digits:
  "k < 10 \<Longrightarrow> str_nat k = [digit_char k]"
  "10 \<le> k \<Longrightarrow> k < 100 \<Longrightarrow> str_nat k = [digit_char (k div 10), digit_char (k mod 10)]"
  "100 \<le> k \<Longrightarrow> k < 1000 \<Longrightarrow>
     str_nat k = [digit_char (k div 100), digit_char (k div 10 mod 10), digit_char (k mod 10)]"
proof -
  show 1: "str_nat k = [digit_char k]" if "k < 10" for k
    using that by (subst str_nat.simps) simp
  show 2: "str_nat k = [digit_char (k div 10), digit_char (k mod 10)]" if "10 \<le> k" "k < 100" for k
  proof -
    have "k div 10 < 10" using that by simp
    then show ?thesis using that 1[of "k div 10"] by (subst str_nat.simps) simp
  qed
  show "str_nat k = [digit_char (k div 100), digit_char (k div 10 mod 10), digit_char (k mod 10)]"
    if "100 \<le> k" "k < 1000"
  proof -
    have "10 \<le> k div 10" "k div 10 < 100" using that by simp_all
    from 2[OF this] have "str_nat (k div 10) = [digit_char (k div 10 div 10), digit_char (k div 10 mod 10)]" .
    moreover have "k div 10 div 10 = k div 100" by (simp add: div_mult2_eq)
    ultimately show ?thesis using that by (subst str_nat.simps) simp
  qed
qed

lemma format_03d_three_digits:
  assumes "k < 1000"
  shows "format_03d k = [digit_char (k div 100), digit_char (k div 10 mod 10), digit_char (k mod 10)]"
proof -
  have z: "digit_char 0 = CHR ''0''" by code_simp
  consider "k < 10" | "10 \<le> k" "k < 100" | "100 \<le> k" using assms by linarith
  then show ?thesis
  proof cases
    case 1
    then show ?thesis by (simp add: format_03d_def str_nat_digits(1) z numeral_3_eq_3)
  next
    case 2
    then show ?thesis by (simp add: format_03d_def str_nat_digits(2) z)
  next
    case 3
    then show ?thesis using assms by (simp add: format_03d_def str_nat_digits(3))
  qed
qed


lemma disk_ok_config:
  "(case read_db_config (start disk_ok) of
      (Inr config, s') \<Rightarrow>
        config ''user'' \<noteq> None \<and> config ''password'' \<noteq> None \<and> config ''dsn'' \<noteq> None
    | (Inl x, s') \<Rightarrow> False)"
  by code_simp

lemma db_ready_disk_ok:
  assumes "init_oracle_client_raises env = None" "\<forall>u p d. connect_raises env u p d = None"
  shows "db_ready env (start disk_ok)"
  using assms disk_ok_config
  by (auto simp: db_ready_def split: prod.splits sum.splits option.splits)

lemma ready_env_drop:
  "db_ready (env_drop n rs) (start disk_ok)" "query_ready (env_drop n rs) sql n rs"
  by (simp_all add: db_ready_disk_ok query_ready_def env_drop_def env_ok_def)


lemma clean_drop_result: "clean_stream (env_drop n drop_result) drop_result"
  by (simp add: clean_stream_def drop_result_def env_drop_def env_ok_def)




lemma drop_result_rows:
  "accumulated (env_drop n rs) (fetched drop_result) = replicate 599999 [PyInt 1]"
  "dropped (env_drop n rs) (fetched drop_result) = [[PyNone]]"
  "length (fetched drop_result) = 600000"
  by (simp_all add: accumulated_def dropped_def env_drop_def drop_result_def)



lemma three_names:
  "map (\<lambda>k. ''output_'' @ format_03d k @ ''.xlsx'') [1..<Suc (2 + 1)]
     = [''output_001.xlsx'', ''output_002.xlsx'', ''output_003.xlsx'']"
  by code_simp





lemma ready_env_write_fails:
  "db_ready (env_write_fails n) (start disk_ok)"
  "query_ready (env_write_fails n) sql n small_result"
  by (simp_all add: db_ready_disk_ok query_ready_def env_write_fails_def env_ok_def)

lemma write_error_multi:
  "execute_query_and_export_to_excel (env_write_fails 500001) ''SELECT 1'' (start disk_ok)
   = (None, (start disk_ok)\<lparr>connection := True, cursor := True,
        events := [ConnectionOpened, CursorOpened, CursorClosed, CursorOpened, CursorClosed,
                   ConnectionClosed],
        columns := Some [''NAME'', ''QTY''], row := Some [PyNone, PyNone],
        logs := [InfoClientInit, InfoTotalRows 500001,
                 ErrorOther [''NAME'', ''QTY''] [PyNone, PyNone] OSError]\<rparr>)"
proof -
  let ?env = "env_write_fails 500001"
  let ?s0 = "(start disk_ok)\<lparr>connection := False, cursor := False, columns := None, row := None\<rparr>"
  have t: "try_block ?env ''SELECT 1'' ?s0 = export_multi ?env ''SELECT 1'' (connected 500001 ?s0)"
    using try_block_ready[of ?env ?s0 "''SELECT 1''" 500001 small_result] ready_env_write_fails
    by simp
  have "\<forall>r\<in>set (fetched small_result). length r = length (description small_result)"
    "distinct (description small_result)"
    by (simp_all add: small_result_def)
  from frames_ok(3)[OF this] obtain df where
    df: "partial_frame (description small_result) (fetched small_result) = Inr df" by blast
  have q: "query_result ?env ''SELECT 1'' = Inr small_result"
    "append_raises ?env r = None" "to_excel_raises ?env f = Some OSError" for r f
    by (simp_all add: env_write_fails_def env_ok_def)
  have f: "fetched small_result = [[PyStr (''a'' @ [US] @ ''b''), PyInt 1], [PyNone, PyNone]]"
    "description small_result = [''NAME'', ''QTY'']" "fetch_error small_result = None"
    by (simp_all add: small_result_def)
  have em: "export_multi ?env ''SELECT 1'' s
      = (Some (Exception OSError),
         s\<lparr>events := events s @ [CursorClosed, CursorOpened],
           columns := Some [''NAME'', ''QTY''], row := Some [PyNone, PyNone]\<rparr>)" for s
    using df unfolding f
    by (simp add: export_multi_def q f accumulate_def write_partial_chunk_frame Let_def)
  show ?thesis
    unfolding execute_query_and_export_to_excel_def t em
    by (simp add: except_clauses_def finally_block_def connected_def start_def)
qed

section \<open>Release of the connection and the cursor\<close>

text \<open>
  Claim C6. Whatever the outside world does and however the run ends (normal return, an
  exception one of the \<^verbatim>\<open>except\<close> clauses handles, an exception that escapes, \<^verbatim>\<open>SystemExit\<close>),
  the resource events the run adds leave no connection and no cursor open, and after every
  prefix of these events at most one connection and at most one cursor are open.
\<close>

theorem resources_released_on_every_exit:
  "\<exists>evs. events (snd (execute_query_and_export_to_excel env sql s)) = events s @ evs
        \<and> connections_open evs = 0 \<and> cursors_open evs = 0
        \<and> (\<forall>p. prefix p evs \<longrightarrow> at_most_one_open p)"
proof (cases rule: execute_events[of env sql s])
  case 1
  then show ?thesis
    by (intro exI[where x="[]"]) (simp add: connections_open_def cursors_open_def at_most_one_open_def)
next
  case 2
  show ?thesis
    apply (intro exI[where x="[ConnectionOpened, CursorOpened, CursorClosed, ConnectionClosed]"])
    apply (simp add: 2 connections_open_def cursors_open_def)
    apply (simp only: in_set_prefixes[symmetric] prefixes.simps)
    apply (simp add: connections_open_def cursors_open_def at_most_one_open_def)
    done
next
  case 3
  show ?thesis
    apply (intro exI[where x="[ConnectionOpened, CursorOpened, CursorClosed, CursorOpened, CursorClosed, ConnectionClosed]"])
    apply (simp add: 3 connections_open_def cursors_open_def)
    apply (simp only: in_set_prefixes[symmetric] prefixes.simps)
    apply (simp add: connections_open_def cursors_open_def at_most_one_open_def)
    done
qed

text \<open>A run that exports two rows opens the connection and two cursors in turn and closes
  them all.\<close>

theorem resources_released_witness:
  "connections_open (events (snd (execute_query_and_export_to_excel (env_ok 2 small_result)
       ''SELECT 1'' (start disk_ok)))) = 0
   \<and> cursors_open (events (snd (execute_query_and_export_to_excel (env_ok 2 small_result)
       ''SELECT 1'' (start disk_ok)))) = 0
   \<and> events (snd (execute_query_and_export_to_excel (env_ok 2 small_result)
       ''SELECT 1'' (start disk_ok)))
     = [ConnectionOpened, CursorOpened, CursorClosed, CursorOpened, CursorClosed,
        ConnectionClosed]
   \<and> at_most_one_open (take 4 (events (snd (execute_query_and_export_to_excel
       (env_ok 2 small_result) ''SELECT 1'' (start disk_ok)))))"
proof -
  let ?s = "snd (execute_query_and_export_to_excel (env_ok 2 small_result) ''SELECT 1''
                   (start disk_ok))"
  have ev: "events ?s = [ConnectionOpened, CursorOpened, CursorClosed, CursorOpened,
                         CursorClosed, ConnectionClosed]"
    by code_simp
  from resources_released_on_every_exit[of "env_ok 2 small_result" "''SELECT 1''" "start disk_ok"]
  obtain evs where e: "events ?s = events (start disk_ok) @ evs"
    and c: "connections_open evs = 0" "cursors_open evs = 0"
    and p: "\<forall>p. prefix p evs \<longrightarrow> at_most_one_open p"
    by blast
  have evs: "evs = events ?s" using e by (simp add: start_def)
  have "prefix (take 4 evs) evs" by (rule take_is_prefix)
  with p have "at_most_one_open (take 4 evs)" by blast
  with c ev show ?thesis unfolding evs by simp
qed

section \<open>The two sanitising paths\<close>

text \<open>
  Claim C10. On a frame built from fetched rows, the code for full chunks (and the single-file
  code) turns every cell of an \<^verbatim>\<open>object\<close> column into the string \<^verbatim>\<open>str\<close> gives, with U+001F
  removed, so that \<^verbatim>\<open>None\<close> becomes \<^verbatim>\<open>'None'\<close> and \<^verbatim>\<open>nan\<close> becomes \<^verbatim>\<open>'nan'\<close>; the \<^verbatim>\<open>applymap\<close> of
  the partial-chunk code leaves every cell that is not a string as it is, and its \<^verbatim>\<open>fillna\<close>
  then turns a null of an \<^verbatim>\<open>object\<close> column into the empty string; and there are rows on which
  the two paths give different frames.
\<close>

theorem full_and_partial_sanitizing_differ:
  "(\<forall>data names df i j.
       DataFrame data names = Inr df \<and> distinct names \<and> i < length data \<and> j < length names
       \<and> dtype (cols df ! j) = Object \<longrightarrow>
         (\<exists>df1. sanitize_full df = Inr df1
                \<and> frame_cell df1 i j = PyStr (replace_us (py_str (frame_cell df i j))))
       \<and> (\<exists>df1. sanitize_single df = Inr df1
                \<and> frame_cell df1 i j = PyStr (replace_us (py_str (frame_cell df i j)))))
   \<and> py_str PyNone = ''None'' \<and> py_str PyNaN = ''nan''
   \<and> (\<forall>data names df i j.
       DataFrame data names = Inr df \<and> i < length data \<and> j < length names
       \<and> \<not> is_str (frame_cell df i j) \<longrightarrow>
         frame_cell (applymap replace_if_str df) i j = frame_cell df i j)
   \<and> (\<forall>data names df i j.
       DataFrame data names = Inr df \<and> distinct names \<and> i < length data \<and> j < length names
       \<and> dtype (cols df ! j) = Object \<and> isnull (frame_cell df i j) \<longrightarrow>
         (\<exists>df1. sanitize_partial df = Inr df1 \<and> frame_cell df1 i j = PyStr ''''))
   \<and> (\<exists>data names df. DataFrame data names = Inr df \<and> distinct names
         \<and> sanitize_full df \<noteq> sanitize_partial df \<and> sanitize_single df \<noteq> sanitize_partial df)"
proof (intro conjI allI impI)
  fix data names df i j
  assume a: "DataFrame data names = Inr df \<and> distinct names \<and> i < length data \<and> j < length names
       \<and> dtype (cols df ! j) = Object"
  then have d: "distinct (map label (cols df))" using DataFrame_labels[of data names df] by simp
  from a show "\<exists>df1. sanitize_full df = Inr df1
                \<and> frame_cell df1 i j = PyStr (replace_us (py_str (frame_cell df i j)))"
    using object_cell_full[of data names df i j] by (simp add: sanitize_full_distinct[OF d])
  from a show "\<exists>df1. sanitize_single df = Inr df1
                \<and> frame_cell df1 i j = PyStr (replace_us (py_str (frame_cell df i j)))"
    using object_cell_full[of data names df i j] by (simp add: sanitize_single_distinct[OF d])
next
  show "py_str PyNone = ''None''" "py_str PyNaN = ''nan''" by simp_all
next
  fix data names df i j
  assume a: "DataFrame data names = Inr df \<and> i < length data \<and> j < length names
       \<and> \<not> is_str (frame_cell df i j)"
  then have "frame_cell (applymap replace_if_str df) i j = replace_if_str (frame_cell df i j)"
    using applymap_cell[of data names df i j] by simp
  also have "\<dots> = frame_cell df i j" using a by (cases "frame_cell df i j") simp_all
  finally show "frame_cell (applymap replace_if_str df) i j = frame_cell df i j" .
next
  fix data names df i j
  assume a: "DataFrame data names = Inr df \<and> distinct names \<and> i < length data \<and> j < length names
       \<and> dtype (cols df ! j) = Object \<and> isnull (frame_cell df i j)"
  then have d: "distinct (map label (cols df))" using DataFrame_labels[of data names df] by simp
  from a show "\<exists>df1. sanitize_partial df = Inr df1 \<and> frame_cell df1 i j = PyStr ''''"
    using null_cell_partial[of data names df i j] by (simp add: sanitize_partial_distinct[OF d])
next
  show "\<exists>data names df. DataFrame data names = Inr df \<and> distinct names
         \<and> sanitize_full df \<noteq> sanitize_partial df \<and> sanitize_single df \<noteq> sanitize_partial df"
    using small_frame sanitizers_differ_on_small_frame
    by (intro exI[where x="fetched small_result"] exI[where x="description small_result"]
        exI[where x=small_frame]) (simp add: small_result_def)
qed

text \<open>On the two example rows the null name is exported as \<^verbatim>\<open>'None'\<close> by the full-chunk and
  single-file code and as the empty string by the partial-chunk code.\<close>

theorem full_and_partial_sanitizing_differ_witness:
  "(\<exists>df1. sanitize_full small_frame = Inr df1 \<and> frame_cell df1 1 0 = PyStr ''None'')
   \<and> (\<exists>df1. sanitize_single small_frame = Inr df1 \<and> frame_cell df1 1 0 = PyStr ''None'')
   \<and> (\<exists>df1. sanitize_partial small_frame = Inr df1 \<and> frame_cell df1 1 0 = PyStr '''')
   \<and> frame_cell (applymap replace_if_str small_frame) 1 0 = PyNone"
proof -
  have h: "DataFrame (fetched small_result) (description small_result) = Inr small_frame
      \<and> distinct (description small_result) \<and> 1 < length (fetched small_result)
      \<and> 0 < length (description small_result) \<and> dtype (cols small_frame ! 0) = Object"
    by (simp add: small_frame) (simp add: small_result_def small_frame_def)
  have c: "frame_cell small_frame 1 0 = PyNone" by (simp add: frame_cell_def small_frame_def)
  have r: "replace_us ''None'' = ''None''" by (simp add: replace_us_def US_def)
  note t = full_and_partial_sanitizing_differ
  from t h have 1: "\<exists>df1. sanitize_full small_frame = Inr df1
      \<and> frame_cell df1 1 0 = PyStr (replace_us (py_str (frame_cell small_frame 1 0)))"
    by blast
  from t h have 2: "\<exists>df1. sanitize_single small_frame = Inr df1
      \<and> frame_cell df1 1 0 = PyStr (replace_us (py_str (frame_cell small_frame 1 0)))"
    by blast
  from h c have h3: "DataFrame (fetched small_result) (description small_result) = Inr small_frame
      \<and> distinct (description small_result) \<and> 1 < length (fetched small_result)
      \<and> 0 < length (description small_result) \<and> dtype (cols small_frame ! 0) = Object
      \<and> isnull (frame_cell small_frame 1 0)" by simp
  from t h3 have 3: "\<exists>df1. sanitize_partial small_frame = Inr df1 \<and> frame_cell df1 1 0 = PyStr ''''"
    by blast
  from h c have h4: "DataFrame (fetched small_result) (description small_result) = Inr small_frame
      \<and> 1 < length (fetched small_result) \<and> 0 < length (description small_result)
      \<and> \<not> is_str (frame_cell small_frame 1 0)" by simp
  from t h4 have 4: "frame_cell (applymap replace_if_str small_frame) 1 0 = frame_cell small_frame 1 0"
    by blast
  from 1 2 3 4 show ?thesis unfolding c by (simp add: r)
qed

section \<open>Removal of U+001F\<close>

text \<open>
  Claim C5, as amended. In a frame built from fetched rows whose column names are pairwise
  distinct, every string cell is exported by each of the three sanitising codes as the same
  string without its U+001F characters: none is left, the other characters stay in their
  order, and the length drops by the number of U+001F. (A string always lies in a column
  classified \<^verbatim>\<open>object\<close>.) With distinct column names the sanitising raises nothing.
\<close>

theorem text_values_lose_every_US:
  assumes "DataFrame data names = Inr df" and "distinct names"
    and "i < length data" and "j < length names" and "j < length (data ! i)"
    and "data ! i ! j = PyStr s"
  shows "(\<exists>df1. sanitize_single df = Inr df1 \<and> frame_cell df1 i j = PyStr (filter (\<lambda>c. c \<noteq> US) s))
       \<and> (\<exists>df1. sanitize_full df = Inr df1 \<and> frame_cell df1 i j = PyStr (filter (\<lambda>c. c \<noteq> US) s))
       \<and> (\<exists>df1. sanitize_partial df = Inr df1 \<and> frame_cell df1 i j = PyStr (filter (\<lambda>c. c \<noteq> US) s))
       \<and> count_list (filter (\<lambda>c. c \<noteq> US) s) US = 0
       \<and> length (filter (\<lambda>c. c \<noteq> US) s) = length s - count_list s US"
proof -
  have d: "distinct (map label (cols df))" using assms(1,2) by (simp add: DataFrame_labels)
  have c: "cell_at (data ! i) j = PyStr s" using assms(5,6) by (simp add: cell_at_def)
  have z: "count_list (filter (\<lambda>c. c \<noteq> US) s) US = 0" by (simp add: count_list_0_iff)
  show ?thesis
    using text_cell_full[OF assms(1,3,4) c] text_cell_partial[OF assms(1,3,4) c] z count_US[of s]
    by (simp add: sanitize_single_distinct[OF d] sanitize_full_distinct[OF d]
        sanitize_partial_distinct[OF d] replace_us_def)
qed

theorem text_values_lose_every_US_witness:
  "(\<exists>df1. sanitize_single small_frame = Inr df1 \<and> frame_cell df1 0 0 = PyStr ''ab'')
   \<and> (\<exists>df1. sanitize_full small_frame = Inr df1 \<and> frame_cell df1 0 0 = PyStr ''ab'')
   \<and> (\<exists>df1. sanitize_partial small_frame = Inr df1 \<and> frame_cell df1 0 0 = PyStr ''ab'')"
proof -
  have f: "filter (\<lambda>c. c \<noteq> US) (''a'' @ [US] @ ''b'') = ''ab''" by (simp add: US_def)
  have "distinct (description small_result)" "0 < length (fetched small_result)"
    "0 < length (description small_result)" "0 < length (fetched small_result ! 0)"
    "fetched small_result ! 0 ! 0 = PyStr (''a'' @ [US] @ ''b'')"
    by (simp_all add: small_result_def)
  from text_values_lose_every_US[OF small_frame this] show ?thesis
    unfolding f by simp
qed

text \<open>Claim C5 as stated fails: sanitising is not free of error conditions. On a frame with a
  repeated column name each of the three codes raises \<^verbatim>\<open>AttributeError\<close>.\<close>

theorem sanitizing_raises_on_repeated_column_names:
  "DataFrame [[PyStr ''x'', PyStr ''y'']] [''ID'', ''ID''] = Inr dup_frame
   \<and> sanitize_single dup_frame = Inl AttributeError
   \<and> sanitize_full dup_frame = Inl AttributeError
   \<and> sanitize_partial dup_frame = Inl AttributeError"
  using dup_frame by (simp add: sanitize_dup dup_frame_def)

section \<open>Nulls in text columns\<close>

text \<open>
  Claim C4 at its failing input. In single-file mode, the rows \<^verbatim>\<open>('a\x1fb', 1)\<close> and
  \<^verbatim>\<open>(None, None)\<close> are written with the null name as the string \<^verbatim>\<open>'None'\<close>, not as the empty
  string the claim and the code's own comment promise; the null quantity is written as 0.
\<close>

theorem null_text_cell_exported_as_None:
  "xlsx (snd (execute_query_and_export_to_excel (env_ok 2 small_result) ''SELECT 1''
               (start disk_ok)))
   = [(''output.xlsx'',
       \<lparr>nrows = 2,
          cols = [\<lparr>label = ''NAME'', dtype = Object, cells = [PyStr ''ab'', PyStr ''None'']\<rparr>,
                  \<lparr>label = ''QTY'', dtype = Float64, cells = [PyInt 1, PyInt 0]\<rparr>]\<rparr>)]"
  by code_simp

section \<open>Multi-file mode\<close>

text \<open>
  Claim C1, as amended. In a run without a fatal error whose count query answers
  \<open>n > 500000\<close> and whose cursor yields \<open>n\<close> rows, let \<open>m\<close> be the number of rows accumulated,
  that is \<open>n\<close> minus the rows dropped by per-row errors. The run writes \<open>m div 200000\<close> files
  of exactly 200000 rows, then one file of \<open>m mod 200000\<close> rows if and only if that is not 0;
  the \<open>k\<close>-th file written is named \<^verbatim>\<open>output_\<close>, \<open>k\<close> in the format \<^verbatim>\<open>03d\<close>, \<^verbatim>\<open>.xlsx\<close>, counting from 1,
  which is three digits for \<open>k < 1000\<close>; and the row counts of the files sum to \<open>n\<close> minus the
  dropped rows.
\<close>

theorem multi_file_export_chunks:
  assumes "db_ready env s" and "query_ready env sql n rs" and "clean_stream env rs"
    and "500000 < n" and "int (length (fetched rs)) = n"
  shows "\<exists>W s'. execute_query_and_export_to_excel env sql s = (None, s')
      \<and> xlsx s' = xlsx s @ W
      \<and> file_names W
          = map (\<lambda>k. ''output_'' @ format_03d k @ ''.xlsx'')
              [1..<Suc (length (accumulated env (fetched rs)) div 200000
                        + (if length (accumulated env (fetched rs)) mod 200000 = 0 then 0 else 1))]
      \<and> file_sizes W
          = replicate (length (accumulated env (fetched rs)) div 200000) 200000
            @ (if length (accumulated env (fetched rs)) mod 200000 = 0 then []
               else [length (accumulated env (fetched rs)) mod 200000])
      \<and> int (length (accumulated env (fetched rs))) = n - int (length (dropped env (fetched rs)))
      \<and> int (sum_list (file_sizes W)) = n - int (length (dropped env (fetched rs)))
      \<and> (\<forall>k<1000. format_03d k
            = [digit_char (k div 100), digit_char (k div 10 mod 10), digit_char (k mod 10)])"
proof -
  let ?K = "accumulated env (fetched rs)" and ?names = "description rs"
  from execute_multi_run[OF assms(1-4)] obtain s' where
    run: "execute_query_and_export_to_excel env sql s = (None, s')"
    and x: "xlsx s' = xlsx s @ multi_files ?names 200000 ?K"
    by blast
  from assms(3) have d: "distinct ?names"
    and wf: "\<forall>r\<in>set ?K. length r = length ?names"
    using accumulated_subset[of env "fetched rs"] by (auto simp: clean_stream_def)
  have c: "0 < (200000::nat)" by simp
  note f = multi_files_facts(1,2)[OF d wf c]
  have nm: "chunk_filename = (\<lambda>k. ''output_'' @ format_03d k @ ''.xlsx'')"
    by (rule ext) (simp add: chunk_filename_def)
  have len: "int (length ?K) = n - int (length (dropped env (fetched rs)))"
    using length_accumulated[of env "fetched rs"] length_dropped_le[of env "fetched rs"] assms(5)
    by simp
  have "sum_list (file_sizes (multi_files ?names 200000 ?K)) = length ?K"
    unfolding f(2) sum_sizes by simp
  with len have sm: "int (sum_list (file_sizes (multi_files ?names 200000 ?K)))
      = n - int (length (dropped env (fetched rs)))" by simp
  show ?thesis
    using run x f(1)[unfolded nm] f(2) len sm format_03d_three_digits by blast
qed

text \<open>600000 rows of which one is dropped: three files, of 200000, 200000 and 199999 rows.\<close>

theorem multi_file_export_chunks_witness:
  "file_names (xlsx (snd (execute_query_and_export_to_excel (env_drop 600000 drop_result)
       ''SELECT 1'' (start disk_ok))))
     = [''output_001.xlsx'', ''output_002.xlsx'', ''output_003.xlsx'']
   \<and> file_sizes (xlsx (snd (execute_query_and_export_to_excel (env_drop 600000 drop_result)
       ''SELECT 1'' (start disk_ok))))
     = [200000, 200000, 199999]
   \<and> sum_list (file_sizes (xlsx (snd (execute_query_and_export_to_excel
       (env_drop 600000 drop_result) ''SELECT 1'' (start disk_ok))))) = 599999"
proof -
  let ?env = "env_drop 600000 drop_result"
  have n: "(500000::int) < 600000" "int (length (fetched drop_result)) = 600000"
    by (simp_all add: drop_result_rows)
  from multi_file_export_chunks[OF ready_env_drop clean_drop_result n, of "''SELECT 1''"]
  obtain W s' where run: "execute_query_and_export_to_excel ?env ''SELECT 1'' (start disk_ok) = (None, s')"
    and x: "xlsx s' = xlsx (start disk_ok) @ W"
    and nm: "file_names W = map (\<lambda>k. ''output_'' @ format_03d k @ ''.xlsx'')
              [1..<Suc (length (accumulated ?env (fetched drop_result)) div 200000
                        + (if length (accumulated ?env (fetched drop_result)) mod 200000 = 0 then 0 else 1))]"
    and sz: "file_sizes W = replicate (length (accumulated ?env (fetched drop_result)) div 200000) 200000
            @ (if length (accumulated ?env (fetched drop_result)) mod 200000 = 0 then []
               else [length (accumulated ?env (fetched drop_result)) mod 200000])"
    by blast
  have w: "xlsx (snd (execute_query_and_export_to_excel ?env ''SELECT 1'' (start disk_ok))) = W"
    using run x by (simp add: start_def)
  have q: "(599999::nat) div 200000 = 2" "(599999::nat) mod 200000 = 199999" by simp_all
  have nm': "file_names W = [''output_001.xlsx'', ''output_002.xlsx'', ''output_003.xlsx'']"
    using nm three_names by (simp add: drop_result_rows q)
  have sz': "file_sizes W = [200000, 200000, 199999]"
    using sz by (simp add: drop_result_rows q numeral_2_eq_2)
  show ?thesis unfolding w nm' sz' by simp
qed

text \<open>Claim C1 as stated fails on the same run: with \<open>n = 600000\<close> it promises
  \<open>600000 div 200000 = 3\<close> full files and no partial file, and the run writes two full files
  and a partial one.\<close>

theorem dropped_row_changes_the_file_count:
  "file_sizes (xlsx (snd (execute_query_and_export_to_excel (env_drop 600000 drop_result)
       ''SELECT 1'' (start disk_ok))))
     = [200000, 200000, 199999]
   \<and> count_result (env_drop 600000 drop_result) (count_sql ''SELECT 1'') = Inr 600000
   \<and> length (fetched drop_result) = 600000
   \<and> count_list [200000, 200000, 199999] (200000::nat) \<noteq> 600000 div 200000
   \<and> (600000::nat) mod 200000 = 0"
proof -
  let ?env = "env_drop 600000 drop_result"
  have n: "(500000::int) < 600000" by simp
  from execute_multi_run[OF ready_env_drop clean_drop_result n, of "''SELECT 1''"]
  obtain s' where run: "execute_query_and_export_to_excel ?env ''SELECT 1'' (start disk_ok) = (None, s')"
    and x: "xlsx s' = xlsx (start disk_ok)
              @ multi_files (description drop_result) 200000 (accumulated ?env (fetched drop_result))"
    by blast
  have d: "distinct (description drop_result)"
    and wf: "\<forall>r\<in>set (replicate 599999 [PyInt 1]). length r = length (description drop_result)"
    by (simp_all add: drop_result_def)
  have q: "(599999::nat) div 200000 = 2" "(599999::nat) mod 200000 = 199999" by simp_all
  have "file_sizes (multi_files (description drop_result) 200000 (replicate 599999 [PyInt 1]))
        = [200000, 200000, 199999]"
    unfolding multi_files_facts(2)[OF d wf, of 200000, simplified] by (simp add: q numeral_2_eq_2)
  then have "file_sizes (xlsx (snd (execute_query_and_export_to_excel ?env ''SELECT 1'' (start disk_ok))))
     = [200000, 200000, 199999]"
    using run x by (simp add: start_def drop_result_rows)
  moreover have "count_result ?env (count_sql ''SELECT 1'') = Inr 600000"
    by (simp add: env_drop_def env_ok_def)
  ultimately show ?thesis by (simp add: drop_result_rows)
qed

section \<open>The threshold between the two modes\<close>



section \<open>Rows that fail while being accumulated\<close>



section \<open>The top-level handlers\<close>

text \<open>
  Claim C7 at its failing input. In single-file mode the loop variable \<^verbatim>\<open>row\<close> is never
  assigned. When the spreadsheet writer raises \<^verbatim>\<open>OSError\<close> there, the clause
  \<^verbatim>\<open>except Exception\<close> is entered and raises \<^verbatim>\<open>UnboundLocalError\<close> while formatting its message:
  nothing about the failure is logged, the exception leaves the function after the
  \<^verbatim>\<open>finally\<close> block, and the process ends with status 1. The same failure in multi-file mode
  is logged with the column names and the row, and the function returns.
\<close>

theorem write_error_in_single_file_mode_escapes:
  "fst (execute_query_and_export_to_excel (env_write_fails 2) ''SELECT 1'' (start disk_ok))
     = Some (Exception UnboundLocalError)
   \<and> logs (snd (execute_query_and_export_to_excel (env_write_fails 2) ''SELECT 1''
                  (start disk_ok)))
     = [InfoClientInit, InfoTotalRows 2]
   \<and> fst (main (env_write_fails 2) (start disk_ok)) = 1
   \<and> fst (execute_query_and_export_to_excel (env_write_fails 500001) ''SELECT 1''
            (start disk_ok)) = None
   \<and> logs (snd (execute_query_and_export_to_excel (env_write_fails 500001) ''SELECT 1''
                  (start disk_ok)))
     = [InfoClientInit, InfoTotalRows 500001,
        ErrorOther [''NAME'', ''QTY''] [PyNone, PyNone] OSError]"
proof (intro conjI)
  show "fst (execute_query_and_export_to_excel (env_write_fails 2) ''SELECT 1'' (start disk_ok))
     = Some (Exception UnboundLocalError)"
    by code_simp
  show "logs (snd (execute_query_and_export_to_excel (env_write_fails 2) ''SELECT 1''
                  (start disk_ok)))
     = [InfoClientInit, InfoTotalRows 2]"
    by code_simp
  show "fst (main (env_write_fails 2) (start disk_ok)) = 1"
    by code_simp
  show "fst (execute_query_and_export_to_excel (env_write_fails 500001) ''SELECT 1''
            (start disk_ok)) = None"
    by (simp add: write_error_multi)
  show "logs (snd (execute_query_and_export_to_excel (env_write_fails 500001) ''SELECT 1''
                  (start disk_ok)))
     = [InfoClientInit, InfoTotalRows 500001,
        ErrorOther [''NAME'', ''QTY''] [PyNone, PyNone] OSError]"
    by (simp add: write_error_multi)
qed

section \<open>Missing configuration files\<close>

text \<open>
  Claim C8, as amended. When \<^verbatim>\<open>params.txt\<close> is absent, it is created with the line
  \<^verbatim>\<open>SELECT * FROM dual\<close> and the export runs with that query. When \<^verbatim>\<open>database.txt\<close> is absent and
  the client library was initialised, the placeholder is written and the process ends with
  status 0: no connection or cursor is opened, nothing is exported, and the result does not
  depend on what \<^verbatim>\<open>oracledb.connect\<close> would do.
\<close>

theorem missing_configuration_files:
  "(files s ''params.txt'' = None \<longrightarrow>
      read_sql_from_file ''params.txt'' s
        = (''SELECT * FROM dual'',
           s\<lparr>files := (files s)(''params.txt'' \<mapsto> ''SELECT * FROM dual'' @ [LF]),
             logs := logs s @ [InfoSqlFileCreated ''params.txt'']\<rparr>)
      \<and> main env s
        = (case execute_query_and_export_to_excel env ''SELECT * FROM dual''
                  (s\<lparr>files := (files s)(''params.txt'' \<mapsto> ''SELECT * FROM dual'' @ [LF]),
                     logs := logs s @ [InfoSqlFileCreated ''params.txt'']\<rparr>) of
             (out, s2) \<Rightarrow> (exit_status out, s2)))
   \<and> (files s ''database.txt'' = None \<and> init_oracle_client_raises env = None \<longrightarrow>
        fst (main env s) = 0
      \<and> files (snd (main env s)) ''database.txt'' = Some placeholder_config
      \<and> events (snd (main env s)) = events s
      \<and> xlsx (snd (main env s)) = xlsx s
      \<and> (\<forall>c. main (env\<lparr>connect_raises := c\<rparr>) s = main env s))"
proof (intro conjI impI)
  assume a: "files s ''params.txt'' = None"
  show "read_sql_from_file ''params.txt'' s
        = (''SELECT * FROM dual'',
           s\<lparr>files := (files s)(''params.txt'' \<mapsto> ''SELECT * FROM dual'' @ [LF]),
             logs := logs s @ [InfoSqlFileCreated ''params.txt'']\<rparr>)"
    by (rule read_sql_missing[OF a])
  then show "main env s
        = (case execute_query_and_export_to_excel env ''SELECT * FROM dual''
                  (s\<lparr>files := (files s)(''params.txt'' \<mapsto> ''SELECT * FROM dual'' @ [LF]),
                     logs := logs s @ [InfoSqlFileCreated ''params.txt'']\<rparr>) of
             (out, s2) \<Rightarrow> (exit_status out, s2))"
    by (simp add: main_def)
next
  assume b: "files s ''database.txt'' = None \<and> init_oracle_client_raises env = None"
  obtain sql s1 where r: "read_sql_from_file ''params.txt'' s = (sql, s1)" by (metis prod.exhaust)
  have ne: "''database.txt'' \<noteq> ''params.txt''" by simp
  note k = read_sql_keeps_other_files[OF r ne]
  have n: "files s1 ''database.txt'' = None" using b k by simp
  have m: "main e s = (0,
     s1\<lparr>connection := False, cursor := False, columns := None, row := None,
       logs := logs s1 @ [InfoClientInit, InfoConfigCreated, InfoEditConfig],
       files := (files s1)(''database.txt'' \<mapsto> placeholder_config)\<rparr>)"
    if "init_oracle_client_raises e = None" for e
    using execute_no_config[OF n that] r by (simp add: main_def)
  have i: "init_oracle_client_raises (env\<lparr>connect_raises := c\<rparr>) = None" for c using b by simp
  show "fst (main env s) = 0" using m b by simp
  show "files (snd (main env s)) ''database.txt'' = Some placeholder_config" using m b by simp
  show "events (snd (main env s)) = events s" using m b k by simp
  show "xlsx (snd (main env s)) = xlsx s" using m b k by simp
  show "\<forall>c. main (env\<lparr>connect_raises := c\<rparr>) s = main env s" using m[OF i] m b by simp
qed

theorem missing_configuration_files_witness:
  "fst (main (env_ok 2 small_result) (start Map.empty)) = 0
   \<and> files (snd (main (env_ok 2 small_result) (start Map.empty))) ''database.txt''
       = Some placeholder_config
   \<and> events (snd (main (env_ok 2 small_result) (start Map.empty))) = []
   \<and> xlsx (snd (main (env_ok 2 small_result) (start Map.empty))) = []
   \<and> read_sql_from_file ''params.txt'' (start Map.empty)
       = (''SELECT * FROM dual'',
          (start Map.empty)\<lparr>files := [''params.txt'' \<mapsto> ''SELECT * FROM dual'' @ [LF]],
                             logs := [InfoSqlFileCreated ''params.txt'']\<rparr>)"
proof -
  have 1: "files (start Map.empty) ''params.txt'' = None" by (simp add: start_def)
  have 2: "files (start Map.empty) ''database.txt'' = None
           \<and> init_oracle_client_raises (env_ok 2 small_result) = None"
    by (simp add: start_def env_ok_def)
  note t = missing_configuration_files[of "start Map.empty" "env_ok 2 small_result"]
  from t 1 have a: "read_sql_from_file ''params.txt'' (start Map.empty)
        = (''SELECT * FROM dual'',
           (start Map.empty)\<lparr>files := (files (start Map.empty))(''params.txt'' \<mapsto> ''SELECT * FROM dual'' @ [LF]),
             logs := logs (start Map.empty) @ [InfoSqlFileCreated ''params.txt'']\<rparr>)"
    by blast
  from t 2 have b: "fst (main (env_ok 2 small_result) (start Map.empty)) = 0
      \<and> files (snd (main (env_ok 2 small_result) (start Map.empty))) ''database.txt'' = Some placeholder_config
      \<and> events (snd (main (env_ok 2 small_result) (start Map.empty))) = events (start Map.empty)
      \<and> xlsx (snd (main (env_ok 2 small_result) (start Map.empty))) = xlsx (start Map.empty)"
    by blast
  have s: "events (start Map.empty) = []" "xlsx (start Map.empty) = []"
    "logs (start Map.empty) = []" "files (start Map.empty) = Map.empty"
    by (simp_all add: start_def)
  from a b show ?thesis unfolding s by simp
qed

text \<open>Claim C8 as stated fails when the client library cannot be initialised: the run ends
  in the handler for \<^verbatim>\<open>DatabaseError\<close> before \<^verbatim>\<open>read_db_config\<close> is called, and no placeholder
  is written.\<close>

theorem no_placeholder_when_client_library_fails:
  "files (snd (main env_no_client (start Map.empty))) ''database.txt'' = None
   \<and> fst (main env_no_client (start Map.empty)) = 0
   \<and> logs (snd (main env_no_client (start Map.empty)))
       = [InfoSqlFileCreated ''params.txt'', ErrorDatabase DatabaseError]"
  by code_simp

end
